theory Spec2Isabelle
  imports Complex_Main "HOL-Library.Sublist" "HOL-Library.Char_ord" "HOL-Library.List_Lexorder"
begin

section \<open>The rows of the store\<close>

text \<open>
  A default category as \<open>createDefaultCategories\<close> lists it, \<open>{ name, type }\<close>, and the row
  it inserts into the table \<open>categories\<close>, \<open>{ user_id, name, type }\<close>. The record of the
  transactions below has a field \<open>type\<close> too: from there on \<open>type\<close> is the field of a
  transaction, and the field of a category is written \<open>categoryDefault.type\<close>.
\<close>

record categoryDefault =
  name :: string
  type :: string

record categoryRow = categoryDefault +
  user_id :: string

text \<open>
  A row of the table \<open>transactions\<close>, as \<open>select('*')\<close> hands it to the screens.
  \<^item> \<open>tx_id\<close> is the column \<open>id\<close> (renamed: \<open>id\<close> is the identity function of HOL);
  \<^item> \<open>type\<close> is a JavaScript string: the screens write \<open>'income'\<close> and \<open>'expense'\<close>, the
    code compares it with \<open>===\<close> and nothing restricts it to these two values;
  \<^item> \<open>amount\<close> is a JavaScript number read from the store, a finite double: the field
    holds its exact value, and the arithmetic on it is the one of doubles (below);
  \<^item> \<open>description\<close> and \<open>category\<close> may be \<open>null\<close> (\<open>None\<close>): the code guards them
    with \<open>|| ''\<close>;
  \<^item> \<open>date\<close> is the stored string (the screens write \<open>YYYY-MM-DD\<close>).
  Strings are lists of code units in the Latin-1 range, which covers every literal of the
  source.
\<close>

record transaction =
  tx_id :: nat
  type :: string
  amount :: rat
  description :: "string option"
  category :: "string option"
  date :: string

section \<open>The JavaScript runtime\<close>

subsection \<open>Numbers\<close>

text \<open>
  A JavaScript number is a binary64 value: a finite one, given by its exact rational
  value (the two zeros are not told apart), an infinity or NaN.
\<close>

datatype number = Finite rat | PlusInfinity | MinusInfinity | NaN

text \<open>\<open>ilog2 n\<close> is the position of the leading bit of \<open>n \<ge> 1\<close>; \<open>pow2 e\<close> is \<open>2\<^sup>e\<close>.\<close>

fun ilog2 :: "int \<Rightarrow> int" where
  "ilog2 n = (if n \<le> 1 then 0 else 1 + ilog2 (n div 2))"

declare ilog2.simps [simp del]

definition pow2 :: "int \<Rightarrow> rat" where
  "pow2 e = 2 powi e"

text \<open>The exponent \<open>e\<close> of a positive rational: \<open>2\<^sup>e \<le> r < 2\<^sup>e\<^sup>+\<^sup>1\<close>.\<close>

definition binaryExponent :: "rat \<Rightarrow> int" where
  "binaryExponent r =
     (let d = ilog2 (fst (quotient_of r)) - ilog2 (snd (quotient_of r))
      in if pow2 d \<le> r then d else d - 1)"

definition roundHalfEven :: "rat \<Rightarrow> int" where
  "roundHalfEven x =
     (let f = \<lfloor>x\<rfloor>; d = x - of_int f
      in if d < 1 / 2 then f else if 1 / 2 < d then f + 1 else if even f then f else f + 1)"

text \<open>
  Rounding to nearest, ties to even, on 53 significant bits, with the fixed spacing
  \<open>2\<^sup>-\<^sup>1\<^sup>0\<^sup>7\<^sup>4\<close> below \<open>2\<^sup>-\<^sup>1\<^sup>0\<^sup>2\<^sup>2\<close>; a rounded value of exponent 1024 or more overflows
  to an infinity.
\<close>

definition roundBinary64 :: "rat \<Rightarrow> rat" where
  "roundBinary64 r =
     (if r = 0 then 0
      else (let q = pow2 (max (binaryExponent \<bar>r\<bar>) (- 1022) - 52)
            in of_int (roundHalfEven (r / q)) * q))"

definition toNumber :: "rat \<Rightarrow> number" where
  "toNumber r =
     (let v = roundBinary64 r
      in if v \<noteq> 0 \<and> 1024 \<le> binaryExponent \<bar>v\<bar>
         then (if 0 < v then PlusInfinity else MinusInfinity)
         else Finite v)"

text \<open>\<open>a + b\<close>, \<open>- a\<close> and \<open>a - b\<close> on numbers.\<close>

fun jsAdd :: "number \<Rightarrow> number \<Rightarrow> number" where
  "jsAdd (Finite a) (Finite b) = toNumber (a + b)"
| "jsAdd NaN _ = NaN"
| "jsAdd _ NaN = NaN"
| "jsAdd PlusInfinity MinusInfinity = NaN"
| "jsAdd MinusInfinity PlusInfinity = NaN"
| "jsAdd PlusInfinity _ = PlusInfinity"
| "jsAdd _ PlusInfinity = PlusInfinity"
| "jsAdd MinusInfinity _ = MinusInfinity"
| "jsAdd _ MinusInfinity = MinusInfinity"

fun jsNegate :: "number \<Rightarrow> number" where
  "jsNegate (Finite a) = Finite (- a)"
| "jsNegate PlusInfinity = MinusInfinity"
| "jsNegate MinusInfinity = PlusInfinity"
| "jsNegate NaN = NaN"

definition jsSubtract :: "number \<Rightarrow> number \<Rightarrow> number" where
  "jsSubtract a b = jsAdd a (jsNegate b)"

text \<open>
  Adding finite amounts from the left, starting from 0, as
  \<open>reduce((sum, t) => sum + t.amount, 0)\<close> and a chain of \<open>+=\<close> do.
\<close>

definition floatSum :: "rat list \<Rightarrow> number" where
  "floatSum xs = foldl (\<lambda>sum x. jsAdd sum (Finite x)) (Finite 0) xs"


subsection \<open>Numbers as strings\<close>

text \<open>
  The template literal of \<open>processMonthlyData\<close> renders two integers in decimal, as
  JavaScript does for every integer a \<open>Date\<close> can return.
\<close>

definition digitChar :: "nat \<Rightarrow> char" where
  "digitChar n = char_of (48 + n)"

fun digitsOf :: "nat \<Rightarrow> string" where
  "digitsOf n = (if n < 10 then [digitChar n] else digitsOf (n div 10) @ [digitChar (n mod 10)])"

declare digitsOf.simps [simp del]

definition numberToString :: "int \<Rightarrow> string" where
  "numberToString i = (if i < 0 then CHR ''-'' # digitsOf (nat (- i)) else digitsOf (nat i))"

definition isDigit :: "char \<Rightarrow> bool" where
  "isDigit c = (CHR ''0'' \<le> c \<and> c \<le> CHR ''9'')"

definition readNat :: "string \<Rightarrow> int" where
  "readNat s = foldl (\<lambda>n c. 10 * n + (of_char c - 48)) 0 s"

text \<open>
  Reading the rendering back: an optional sign and the longest run of digits. It is used
  to show that the month key determines the year and the month.
\<close>

definition leadingInt :: "string \<Rightarrow> int \<times> string" where
  "leadingInt s =
     (case s of
        [] \<Rightarrow> (0, [])
      | c # r \<Rightarrow> if c = CHR ''-''
                 then (- readNat (takeWhile isDigit r), dropWhile isDigit r)
                 else (readNat (takeWhile isDigit s), dropWhile isDigit s))"

subsection \<open>Strings\<close>

text \<open>
  \<open>String.prototype.toLowerCase\<close> on code units below 256: the letters A to Z and the
  Latin-1 capitals (192 to 222, without the multiplication sign 215) move up by 32.
\<close>

definition toLowerCaseUnit :: "char \<Rightarrow> char" where
  "toLowerCaseUnit c =
     (let n = (of_char c :: nat)
      in if (65 \<le> n \<and> n \<le> 90) \<or> (192 \<le> n \<and> n \<le> 222 \<and> n \<noteq> 215) then char_of (n + 32) else c)"

definition toLowerCase :: "string \<Rightarrow> string" where
  "toLowerCase s = map toLowerCaseUnit s"

text \<open>\<open>s.includes(q)\<close>: \<open>q\<close> occurs in \<open>s\<close> as a contiguous run.\<close>

definition includesString :: "string \<Rightarrow> string \<Rightarrow> bool" where
  "includesString s q = sublist q s"

text \<open>\<open>x || ''\<close> for a string or \<open>null\<close>.\<close>

definition orEmpty :: "string option \<Rightarrow> string" where
  "orEmpty x = (case x of None \<Rightarrow> [] | Some s \<Rightarrow> s)"

subsection \<open>Dates\<close>

text \<open>
  A \<open>Date\<close> is its time value, the milliseconds since the epoch in UTC; \<open>None\<close> is the
  invalid date, whose time value is NaN. What \<open>new Date(string)\<close> accepts, and the zone in
  which \<open>getFullYear\<close> and \<open>getMonth\<close> read a time value, belong to the device: the code
  takes them from the runtime, and so does the model.
\<close>

record runtime =
  newDate :: "string \<Rightarrow> int option"
  getFullYear :: "int \<Rightarrow> int"
  getMonth :: "int \<Rightarrow> int"

text \<open>
  One such runtime, for the examples: date-only ISO strings, which ECMAScript reads as
  midnight UTC, and a device whose local time is UTC plus a fixed offset in milliseconds.
  The day count and its inverse are the usual proleptic Gregorian ones.
\<close>

definition msPerDay :: int where
  "msPerDay = 86400000"

definition daysFromCivil :: "int \<Rightarrow> int \<Rightarrow> int \<Rightarrow> int" where
  "daysFromCivil y m d =
     (let y1 = (if m \<le> 2 then y - 1 else y);
          era = y1 div 400;
          yoe = y1 - era * 400;
          doy = (153 * (if m > 2 then m - 3 else m + 9) + 2) div 5 + d - 1;
          doe = yoe * 365 + yoe div 4 - yoe div 100 + doy
      in era * 146097 + doe - 719468)"

definition civilFromDays :: "int \<Rightarrow> int \<times> int \<times> int" where
  "civilFromDays z =
     (let z1 = z + 719468;
          era = z1 div 146097;
          doe = z1 mod 146097;
          yoe = (doe - doe div 1460 + doe div 36524 - doe div 146096) div 365;
          doy = doe - (365 * yoe + yoe div 4 - yoe div 100);
          mp = (5 * doy + 2) div 153;
          d = doy - (153 * mp + 2) div 5 + 1;
          m = (if mp < 10 then mp + 3 else mp - 9);
          y = yoe + era * 400
      in (if m \<le> 2 then y + 1 else y, m, d))"

definition daysInMonth :: "int \<Rightarrow> int \<Rightarrow> int" where
  "daysInMonth y m =
     (if m = 2 then (if y mod 4 = 0 \<and> (y mod 100 \<noteq> 0 \<or> y mod 400 = 0) then 29 else 28)
      else if m = 4 \<or> m = 6 \<or> m = 9 \<or> m = 11 then 30 else 31)"

definition isoDateOnly :: "string \<Rightarrow> int option" where
  "isoDateOnly s =
     (if length s = 10 \<and> s ! 4 = CHR ''-'' \<and> s ! 7 = CHR ''-''
         \<and> list_all isDigit (take 4 s) \<and> list_all isDigit (take 2 (drop 5 s))
         \<and> list_all isDigit (drop 8 s)
      then (let y = readNat (take 4 s);
                m = readNat (take 2 (drop 5 s));
                d = readNat (drop 8 s)
            in if 1 \<le> m \<and> m \<le> 12 \<and> 1 \<le> d \<and> d \<le> daysInMonth y m
               then Some (daysFromCivil y m d * msPerDay) else None)
      else None)"

definition localFullYear :: "int \<Rightarrow> int \<Rightarrow> int" where
  "localFullYear offset tv = fst (civilFromDays ((tv + offset) div msPerDay))"

definition localMonth :: "int \<Rightarrow> int \<Rightarrow> int" where
  "localMonth offset tv = fst (snd (civilFromDays ((tv + offset) div msPerDay))) - 1"

definition deviceRuntime :: "int \<Rightarrow> runtime" where
  "deviceRuntime offset =
     \<lparr>newDate = isoDateOnly, getFullYear = localFullYear offset, getMonth = localMonth offset\<rparr>"

text \<open>The calendar day, counted from the epoch, on which a device at \<open>offset\<close> sees a time value.\<close>

definition localDay :: "int \<Rightarrow> int \<Rightarrow> int" where
  "localDay offset tv = (tv + offset) div msPerDay"

subsection \<open>Objects used as dictionaries\<close>

text \<open>
  An object literal \<open>{}\<close> filled by assignment: its own properties, in creation
  order. Assigning to a key that exists keeps its place.
\<close>

primrec setOwn :: "string \<Rightarrow> 'v \<Rightarrow> (string \<times> 'v) list \<Rightarrow> (string \<times> 'v) list" where
  "setOwn k v [] = [(k, v)]"
| "setOwn k v (p # ps) = (if fst p = k then (k, v) # ps else p # setOwn k v ps)"

text \<open>Mutating the object stored under a key, as \<open>months[key].income += x\<close> does.\<close>

definition modifyOwn :: "string \<Rightarrow> ('v \<Rightarrow> 'v) \<Rightarrow> (string \<times> 'v) list \<Rightarrow> (string \<times> 'v) list" where
  "modifyOwn k f obj = map (\<lambda>p. if fst p = k then (fst p, f (snd p)) else p) obj"

text \<open>
  \<open>Object.keys\<close>: the keys that are array indices (canonical decimal numerals below
  \<open>2^32 - 1\<close>) come first, in ascending numeric order, then the other keys in creation
  order.
\<close>

definition isArrayIndex :: "string \<Rightarrow> bool" where
  "isArrayIndex s =
     (s \<noteq> [] \<and> list_all isDigit s \<and> (hd s = CHR ''0'' \<longrightarrow> s = ''0'')
      \<and> readNat s < 4294967295)"

definition objectKeys :: "(string \<times> 'v) list \<Rightarrow> string list" where
  "objectKeys obj =
     (let keys = map fst obj
      in sort_key readNat (filter isArrayIndex keys) @ filter (\<lambda>k. \<not> isArrayIndex k) keys)"

text \<open>
  A property read goes on to \<open>Object.prototype\<close> when the object has no own property of
  that name. The values met in \<open>categoryCount\<close> are numbers, strings, \<open>undefined\<close> and the
  members of \<open>Object.prototype\<close>, named by their key.
\<close>

datatype jsvalue = Undefined | Num nat | Str string | Inherited string

definition objectPrototypeKeys :: "string list" where
  "objectPrototypeKeys =
     [''constructor'', ''hasOwnProperty'', ''isPrototypeOf'', ''propertyIsEnumerable'',
      ''toLocaleString'', ''toString'', ''valueOf'', ''__proto__'',
      ''__defineGetter__'', ''__defineSetter__'', ''__lookupGetter__'', ''__lookupSetter__'']"

definition getProp :: "(string \<times> jsvalue) list \<Rightarrow> string \<Rightarrow> jsvalue" where
  "getProp obj k =
     (case map_of obj k of
        Some v \<Rightarrow> v
      | None \<Rightarrow> if k \<in> set objectPrototypeKeys then Inherited k else Undefined)"

text \<open>
  Assignment creates or overwrites an own property, except for \<open>__proto__\<close>: that key is
  an accessor of \<open>Object.prototype\<close>, whose setter ignores a value that is not an object.
\<close>

definition setProp :: "(string \<times> jsvalue) list \<Rightarrow> string \<Rightarrow> jsvalue \<Rightarrow> (string \<times> jsvalue) list" where
  "setProp obj k v = (if k = ''__proto__'' then obj else setOwn k v obj)"

text \<open>
  The string a member of \<open>Object.prototype\<close> turns into under \<open>+\<close>: the source text of a
  built-in function (\<open>Object\<close> for \<open>constructor\<close>), and \<open>[object Object]\<close> for the
  prototype itself. Engines differ in the blanks of the function text; it never reads as
  a number.
\<close>

definition inheritedText :: "string \<Rightarrow> string" where
  "inheritedText k =
     (if k = ''__proto__'' then ''[object Object]''
      else ''function '' @ (if k = ''constructor'' then ''Object'' else k) @ ''() { [native code] }'')"

text \<open>\<open>(v || 0) + 1\<close>.\<close>

definition orZeroPlusOne :: "jsvalue \<Rightarrow> jsvalue" where
  "orZeroPlusOne v =
     (case v of
        Undefined \<Rightarrow> Num 1
      | Num n \<Rightarrow> Num (n + 1)
      | Str s \<Rightarrow> (if s = [] then Num 1 else Str (s @ ''1''))
      | Inherited k \<Rightarrow> Str (inheritedText k @ ''1''))"

text \<open>
  \<open>x > y\<close>: numeric on two numbers, by code units on two strings; a string that is not
  a numeral, or \<open>undefined\<close>, against a number converts to NaN and the test is false.
\<close>

definition toPrimitive :: "jsvalue \<Rightarrow> jsvalue" where
  "toPrimitive v = (case v of Inherited k \<Rightarrow> Str (inheritedText k) | _ \<Rightarrow> v)"

definition jsGreater :: "jsvalue \<Rightarrow> jsvalue \<Rightarrow> bool" where
  "jsGreater x y =
     (case (toPrimitive x, toPrimitive y) of
        (Num a, Num b) \<Rightarrow> b < a
      | (Str s, Str t) \<Rightarrow> t < s
      | _ \<Rightarrow> False)"

text \<open>A property key made from a string or \<open>null\<close>.\<close>

definition propertyKey :: "string option \<Rightarrow> string" where
  "propertyKey x = (case x of None \<Rightarrow> ''null'' | Some s \<Rightarrow> s)"

section \<open>DashboardScreen.js\<close>

subsection \<open>The balance (loadDashboardData, step 2)\<close>

text \<open>The amounts of the transactions of one type, in their order.\<close>

definition amountsOfType :: "string \<Rightarrow> transaction list \<Rightarrow> rat list" where
  "amountsOfType ty ts = map amount (filter (\<lambda>t. type t = ty) ts)"

definition totalIncome :: "transaction list \<Rightarrow> number" where
  "totalIncome transactions =
     foldl (\<lambda>sum t. jsAdd sum (Finite (amount t))) (Finite 0)
       (filter (\<lambda>t. type t = ''income'') transactions)"

definition totalExpenses :: "transaction list \<Rightarrow> number" where
  "totalExpenses transactions =
     foldl (\<lambda>sum t. jsAdd sum (Finite (amount t))) (Finite 0)
       (filter (\<lambda>t. type t = ''expense'') transactions)"

text \<open>The value passed to \<open>setBalance\<close>.\<close>

definition computeBalance :: "transaction list \<Rightarrow> number" where
  "computeBalance transactions =
     jsSubtract (totalIncome transactions) (totalExpenses transactions)"

subsection \<open>processMonthlyData\<close>

record monthTotals =
  income :: number
  expenses :: number

text \<open>An element of the returned array: \<open>{ month, income, expenses }\<close>.\<close>

record chartPoint = monthTotals +
  month :: string

definition monthKey :: "runtime \<Rightarrow> transaction \<Rightarrow> string" where
  "monthKey rt transaction =
     (case newDate rt (date transaction) of
        None \<Rightarrow> ''NaN-NaN''
      | Some tv \<Rightarrow> numberToString (getFullYear rt tv) @ ''-'' @ numberToString (getMonth rt tv + 1))"

text \<open>
  The body of the \<open>forEach\<close>. A month key holds a \<open>-\<close> or is \<open>NaN-NaN\<close>, so it never
  names a member of \<open>Object.prototype\<close> (lemma \<open>monthKey_not_inherited\<close>) and the test
  \<open>!months[monthKey]\<close> asks for an own property.
\<close>

definition monthStep ::
  "runtime \<Rightarrow> (string \<times> monthTotals) list \<Rightarrow> transaction \<Rightarrow> (string \<times> monthTotals) list" where
  "monthStep rt months transaction =
     (let key = monthKey rt transaction;
          months1 = (case map_of months key of
                       None \<Rightarrow> setOwn key \<lparr>income = Finite 0, expenses = Finite 0\<rparr> months
                     | Some _ \<Rightarrow> months)
      in if type transaction = ''income''
         then modifyOwn key
                (\<lambda>m. m\<lparr>income := jsAdd (income m) (Finite (amount transaction))\<rparr>) months1
         else modifyOwn key
                (\<lambda>m. m\<lparr>expenses := jsAdd (expenses m) (Finite (amount transaction))\<rparr>) months1)"

definition monthsOf :: "runtime \<Rightarrow> transaction list \<Rightarrow> (string \<times> monthTotals) list" where
  "monthsOf rt transactions = foldl (monthStep rt) [] transactions"

text \<open>
  The keys of \<open>Object.keys(months)\<close> are own properties, so \<open>months[key]\<close> is always there
  (\<open>the\<close> is never applied to \<open>None\<close>: lemma \<open>processMonthlyData_points\<close> computes every
  element).
\<close>

definition processMonthlyData :: "runtime \<Rightarrow> transaction list \<Rightarrow> chartPoint list" where
  "processMonthlyData rt transactions =
     (let months = monthsOf rt transactions
      in map (\<lambda>key. \<lparr>income = income (the (map_of months key)),
                     expenses = expenses (the (map_of months key)),
                     month = key\<rparr>)
             (objectKeys months))"

subsection \<open>calculateHighlights\<close>

text \<open>
  \<open>expenses.reduce((max, t) => t.amount > max.amount ? t : max, expenses[0])\<close>, and
  \<open>null\<close> (\<open>None\<close>) when \<open>expenses\<close> is empty.
\<close>

definition highestExpenseOf :: "transaction list \<Rightarrow> transaction option" where
  "highestExpenseOf transactions =
     (let expenses = filter (\<lambda>t. type t = ''expense'') transactions
      in case expenses of
           [] \<Rightarrow> None
         | e0 # _ \<Rightarrow> Some (foldl (\<lambda>max t. if amount t > amount max then t else max) e0 expenses))"

text \<open>The body of the second \<open>forEach\<close>: \<open>categoryCount[c] = (categoryCount[c] || 0) + 1\<close>.\<close>

definition countStep :: "(string \<times> jsvalue) list \<Rightarrow> transaction \<Rightarrow> (string \<times> jsvalue) list" where
  "countStep categoryCount t =
     (let k = propertyKey (category t)
      in setProp categoryCount k (orZeroPlusOne (getProp categoryCount k)))"

definition categoryCountOf :: "transaction list \<Rightarrow> (string \<times> jsvalue) list" where
  "categoryCountOf transactions = foldl countStep [] transactions"

text \<open>
  \<open>reduce\<close> without an initial value starts from the first key; the second key wins
  unless the first is strictly greater.
\<close>

definition mostUsedCategoryOf :: "transaction list \<Rightarrow> string" where
  "mostUsedCategoryOf transactions =
     (let categoryCount = categoryCountOf transactions
      in case objectKeys categoryCount of
           [] \<Rightarrow> ''Nenhuma''
         | k0 # ks \<Rightarrow>
             foldl (\<lambda>a b. if jsGreater (getProp categoryCount a) (getProp categoryCount b)
                           then a else b) k0 ks)"

record highlights =
  highestExpense :: "transaction option"
  mostUsedCategory :: string

definition calculateHighlights :: "transaction list \<Rightarrow> highlights" where
  "calculateHighlights transactions =
     \<lparr>highestExpense = highestExpenseOf transactions,
      mostUsedCategory = mostUsedCategoryOf transactions\<rparr>"

subsection \<open>The monthly series, said with sums\<close>

text \<open>
  What the chart data holds, for the statements below: the months in the order in which
  the input first shows them, and for a month key the amounts of type \<open>income\<close> and all
  other amounts, each added up from the left in double arithmetic. Two transactions are
  in the same month for the code when the runtime reads the same year and month from
  their dates, or reads no date from either.
\<close>

definition sameMonth :: "runtime \<Rightarrow> transaction \<Rightarrow> transaction \<Rightarrow> bool" where
  "sameMonth rt t u =
     (map_option (\<lambda>tv. (getFullYear rt tv, getMonth rt tv)) (newDate rt (date t))
      = map_option (\<lambda>tv. (getFullYear rt tv, getMonth rt tv)) (newDate rt (date u)))"

definition firstSeen :: "'a list \<Rightarrow> 'a list" where
  "firstSeen ks = rev (remdups (rev ks))"

definition monthIncome :: "runtime \<Rightarrow> string \<Rightarrow> transaction list \<Rightarrow> number" where
  "monthIncome rt k ts =
     floatSum (map amount (filter (\<lambda>t. monthKey rt t = k \<and> type t = ''income'') ts))"

definition monthOther :: "runtime \<Rightarrow> string \<Rightarrow> transaction list \<Rightarrow> number" where
  "monthOther rt k ts =
     floatSum (map amount (filter (\<lambda>t. monthKey rt t = k \<and> type t \<noteq> ''income'') ts))"

definition totalsOf :: "runtime \<Rightarrow> transaction list \<Rightarrow> string \<Rightarrow> monthTotals" where
  "totalsOf rt ts k = \<lparr>income = monthIncome rt k ts, expenses = monthOther rt k ts\<rparr>"










text \<open>
  For the statements on the most used category: the key a transaction counts under (its
  category, \<open>null\<close> for a missing one) and the number of transactions of a key.
\<close>

definition categoryKey :: "transaction \<Rightarrow> string" where
  "categoryKey t = propertyKey (category t)"

definition occurrences :: "string \<Rightarrow> transaction list \<Rightarrow> nat" where
  "occurrences k ts = length (filter (\<lambda>t. categoryKey t = k) ts)"

section \<open>TransactionsScreen.js\<close>

text \<open>
  \<open>filterTransactions\<close> reads the component state and stores its result with
  \<open>setFilteredTransactions\<close>; the model takes the state as arguments and returns the
  stored list. \<open>startDate\<close> and \<open>endDate\<close> are valid dates (they come from \<open>new Date()\<close>
  and from the date picker), given by their time values. A comparison with the invalid
  date is false.
\<close>

definition inDateRange :: "runtime \<Rightarrow> int \<Rightarrow> int \<Rightarrow> transaction \<Rightarrow> bool" where
  "inDateRange rt startDate endDate t =
     (case newDate rt (date t) of
        None \<Rightarrow> False
      | Some transactionDate \<Rightarrow> transactionDate \<ge> startDate \<and> transactionDate \<le> endDate)"

definition filterTransactions ::
  "runtime \<Rightarrow> transaction list \<Rightarrow> string \<Rightarrow> string \<Rightarrow> int \<Rightarrow> int \<Rightarrow> string \<Rightarrow> transaction list" where
  "filterTransactions rt transactions filterType filterCategory startDate endDate searchText =
     (let filtered0 = transactions;
          filtered1 = (if filterType \<noteq> ''all''
                       then filter (\<lambda>t. type t = filterType) filtered0 else filtered0);
          filtered2 = (if filterCategory \<noteq> []
                       then filter (\<lambda>t. includesString (toLowerCase (orEmpty (category t)))
                                                  (toLowerCase filterCategory)) filtered1
                       else filtered1);
          filtered3 = filter (inDateRange rt startDate endDate) filtered2;
          filtered4 = (if searchText \<noteq> []
                       then (let q = toLowerCase searchText
                             in filter (\<lambda>t. includesString (toLowerCase (orEmpty (description t))) q
                                           \<or> includesString (toLowerCase (orEmpty (category t))) q)
                                  filtered3)
                       else filtered3)
      in filtered4)"

text \<open>The four steps read as one test on a transaction.\<close>

definition keeps ::
  "runtime \<Rightarrow> string \<Rightarrow> string \<Rightarrow> int \<Rightarrow> int \<Rightarrow> string \<Rightarrow> transaction \<Rightarrow> bool" where
  "keeps rt filterType filterCategory startDate endDate searchText t =
     ((filterType \<noteq> ''all'' \<longrightarrow> type t = filterType)
      \<and> (filterCategory \<noteq> [] \<longrightarrow>
            includesString (toLowerCase (orEmpty (category t))) (toLowerCase filterCategory))
      \<and> inDateRange rt startDate endDate t
      \<and> (searchText \<noteq> [] \<longrightarrow>
            includesString (toLowerCase (orEmpty (description t))) (toLowerCase searchText)
            \<or> includesString (toLowerCase (orEmpty (category t))) (toLowerCase searchText)))"

section \<open>AuthContext.js\<close>

text \<open>
  The user object of the authentication service: its \<open>id\<close> (written \<open>uid\<close>) and the time
  value of \<open>new Date(created_at)\<close>.
\<close>

record authUser =
  uid :: string
  created_at :: int

text \<open>
  What the functions of the provider can change: the React state \<open>user\<close> and \<open>loading\<close>,
  the table \<open>categories\<close> of the store, and the console. A console line is kept by the
  call that wrote it, with the value it printed.
\<close>

datatype logLine =
    CreatingDefaults string
  | InsertErrorLogged string
  | DefaultsCreated
  | CreationExceptionLogged string
  | AuthEvent string
  | NewUserDetected
  | UserRegistered
  | SignUpErrorLogged string

record world =
  user :: "authUser option"
  loading :: bool
  categories :: "categoryRow list"
  console :: "logLine list"

definition consoleWrite :: "logLine \<Rightarrow> world \<Rightarrow> world" where
  "consoleWrite l w = w\<lparr>console := console w @ [l]\<rparr>"

text \<open>
  The store is not part of the repository. What the awaited \<open>insert\<close> does is an input of
  the model: it stores the batch and returns no error, or stores nothing and returns an
  error, or throws.
\<close>

datatype insertOutcome = Inserted | Refused string | Thrown string

definition defaultCategories :: "categoryDefault list" where
  "defaultCategories =
     [\<lparr>name = ''Alimenta'' @ [CHR 0xE7, CHR 0xE3] @ ''o'', type = ''expense''\<rparr>,
      \<lparr>name = ''Transporte'', type = ''expense''\<rparr>,
      \<lparr>name = ''Moradia'', type = ''expense''\<rparr>,
      \<lparr>name = ''Sa'' @ [CHR 0xFA] @ ''de'', type = ''expense''\<rparr>,
      \<lparr>name = ''Educa'' @ [CHR 0xE7, CHR 0xE3] @ ''o'', type = ''expense''\<rparr>,
      \<lparr>name = ''Lazer'', type = ''expense''\<rparr>,
      \<lparr>name = ''Compras'', type = ''expense''\<rparr>,
      \<lparr>name = ''Outros'', type = ''expense''\<rparr>,
      \<lparr>name = ''Sal'' @ [CHR 0xE1] @ ''rio'', type = ''income''\<rparr>,
      \<lparr>name = ''Freelance'', type = ''income''\<rparr>,
      \<lparr>name = ''Investimentos'', type = ''income''\<rparr>,
      \<lparr>name = ''Presentes'', type = ''income''\<rparr>,
      \<lparr>name = ''Outros'', type = ''income''\<rparr>]"

text \<open>The argument of \<open>insert\<close>: \<open>defaultCategories.map(category => ({ user_id: userId, ... }))\<close>.\<close>

definition defaultRows :: "string \<Rightarrow> categoryRow list" where
  "defaultRows userId =
     map (\<lambda>category. \<lparr>name = name category, type = categoryDefault.type category,
                        user_id = userId\<rparr>)
         defaultCategories"

text \<open>
  \<open>createDefaultCategories\<close> is an async function: the first component of the result is
  what its promise hands to the caller, \<open>Inr ()\<close> for a promise that resolves (to
  \<open>undefined\<close>) and \<open>Inl e\<close> for one that rejects with \<open>e\<close>. The body sits in a
  \<open>try\<close> whose \<open>catch\<close> only writes to the console, and the error returned by \<open>insert\<close>
  is only written to the console.
\<close>

definition createDefaultCategories :: "string \<Rightarrow> insertOutcome \<Rightarrow> world \<Rightarrow> (string + unit) \<times> world" where
  "createDefaultCategories userId outcome w =
     (let w1 = consoleWrite (CreatingDefaults userId) w
      in case outcome of
           Inserted \<Rightarrow>
             (Inr (), consoleWrite DefaultsCreated
                        (w1\<lparr>categories := categories w1 @ defaultRows userId\<rparr>))
         | Refused error \<Rightarrow> (Inr (), consoleWrite (InsertErrorLogged error) w1)
         | Thrown error \<Rightarrow> (Inr (), consoleWrite (CreationExceptionLogged error) w1))"

text \<open>
  \<open>supabase.auth.signUp\<close> returns \<open>{ data, error }\<close>, where \<open>data.user\<close> may be \<open>null\<close>,
  or throws. \<open>signUp\<close> returns \<open>{ data, error }\<close> too; its \<open>data\<close> is \<open>null\<close> (\<open>None\<close>)
  after an exception, and is otherwise the object whose \<open>user\<close> is given.
\<close>

datatype authOutcome = AuthResult "authUser option" "string option" | AuthThrown string

record signUpResult =
  data :: "authUser option option"
  error :: "string option"

definition signUp ::
  "string \<Rightarrow> string \<Rightarrow> authOutcome \<Rightarrow> insertOutcome \<Rightarrow> world \<Rightarrow> signUpResult \<times> world" where
  "signUp email password auth outcome w =
     (let w1 = w\<lparr>loading := True\<rparr>
      in case auth of
           AuthThrown e \<Rightarrow>
             (\<lparr>data = None, error = Some e\<rparr>,
              (consoleWrite (SignUpErrorLogged e) w1)\<lparr>loading := False\<rparr>)
         | AuthResult dataUser err \<Rightarrow>
             (case (dataUser, err) of
                (Some u, None) \<Rightarrow>
                  (let w2 = consoleWrite UserRegistered w1;
                       w3 = snd (createDefaultCategories (uid u) outcome w2)
                   in (\<lparr>data = Some dataUser, error = err\<rparr>, w3\<lparr>loading := False\<rparr>))
              | _ \<Rightarrow> (\<lparr>data = Some dataUser, error = err\<rparr>, w1\<lparr>loading := False\<rparr>)))"

text \<open>
  The handler given to \<open>onAuthStateChange\<close>, called with the event, the user of the
  session (\<open>None\<close> without one) and the time value of \<open>new Date()\<close>.
\<close>

definition onAuthStateChange ::
  "string \<Rightarrow> authUser option \<Rightarrow> int \<Rightarrow> insertOutcome \<Rightarrow> world \<Rightarrow> world" where
  "onAuthStateChange event sessionUser now outcome w =
     (let w1 = consoleWrite (AuthEvent event) w;
          w2 = (case sessionUser of
                  Some u \<Rightarrow>
                    if event = ''SIGNED_IN''
                    then (let diffMinutes = (of_int (now - created_at u) :: rat) / (1000 * 60)
                          in if diffMinutes < 5
                             then snd (createDefaultCategories (uid u) outcome
                                         (consoleWrite NewUserDetected w1))
                             else w1)
                    else w1
                | None \<Rightarrow> w1)
      in w2\<lparr>user := sessionUser, loading := False\<rparr>)"

section \<open>Example data\<close>

text \<open>The three transactions of the scenario in section 8 of the specification.\<close>

definition food :: transaction where
  "food = \<lparr>tx_id = 1, type = ''expense'', amount = 50, description = Some ''market'',
           category = Some ''Food'', date = ''2024-01-10''\<rparr>"

definition rent :: transaction where
  "rent = \<lparr>tx_id = 2, type = ''expense'', amount = 120, description = Some ''flat'',
           category = Some ''Rent'', date = ''2024-01-15''\<rparr>"

definition salary :: transaction where
  "salary = \<lparr>tx_id = 3, type = ''income'', amount = 1000, description = Some ''pay'',
             category = Some ''Salary'', date = ''2024-01-05''\<rparr>"


text \<open>An empty store and console, and a user created at the epoch.\<close>

definition emptyWorld :: world where
  "emptyWorld = \<lparr>user = None, loading = False, categories = [], console = []\<rparr>"

definition user1 :: authUser where
  "user1 = \<lparr>uid = ''user1'', created_at = 0\<rparr>"

text \<open>An expense dated on the first day of a month.\<close>

definition busFare :: transaction where
  "busFare = \<lparr>tx_id = 5, type = ''expense'', amount = 80, description = Some ''ticket'',
              category = Some ''Transporte'', date = ''2024-01-01''\<rparr>"

text \<open>Two expenses in a category that the user named \<open>constructor\<close>.\<close>

definition builder1 :: transaction where
  "builder1 = \<lparr>tx_id = 6, type = ''expense'', amount = 300, description = Some ''roof'',
               category = Some ''constructor'', date = ''2024-01-12''\<rparr>"

definition builder2 :: transaction where
  "builder2 = \<lparr>tx_id = 7, type = ''expense'', amount = 200, description = Some ''fence'',
               category = Some ''constructor'', date = ''2024-01-18''\<rparr>"

text \<open>
  Three rows with cents. Their amounts are the doubles that \<open>0.1\<close>, \<open>0.2\<close> and \<open>0.3\<close>
  denote (lemma \<open>cents_are_doubles\<close>).
\<close>

definition coffee :: transaction where
  "coffee = \<lparr>tx_id = 8, type = ''expense'', amount = 3602879701896397 / 36028797018963968,
             description = Some ''coffee'', category = Some ''Food'', date = ''2024-01-08''\<rparr>"

definition paper :: transaction where
  "paper = \<lparr>tx_id = 9, type = ''expense'', amount = 3602879701896397 / 18014398509481984,
            description = Some ''paper'', category = Some ''Compras'', date = ''2024-01-09''\<rparr>"

definition refund :: transaction where
  "refund = \<lparr>tx_id = 10, type = ''income'', amount = 5404319552844595 / 18014398509481984,
             description = Some ''refund'', category = Some ''Outros'', date = ''2024-01-11''\<rparr>"


section \<open>Properties\<close>

subsection \<open>Double arithmetic\<close>

lemma ilog2_bounds:
  "1 \<le> n \<Longrightarrow> 0 \<le> ilog2 n \<and> 2 ^ nat (ilog2 n) \<le> n \<and> n < 2 * 2 ^ nat (ilog2 n)"
proof (induction n rule: ilog2.induct)
  case (1 n)
  show ?case
  proof (cases "n \<le> 1")
    case True
    with "1.prems" have "n = 1" by simp
    then show ?thesis by (simp add: ilog2.simps [of 1])
  next
    case False
    then have h: "1 \<le> n div 2" by simp
    from "1.IH" [OF False h]
    have IH: "0 \<le> ilog2 (n div 2)" "2 ^ nat (ilog2 (n div 2)) \<le> n div 2"
      "n div 2 < 2 * 2 ^ nat (ilog2 (n div 2))" by simp_all
    have eq: "ilog2 n = 1 + ilog2 (n div 2)" using False by (simp add: ilog2.simps [of n])
    have nat_eq: "nat (ilog2 n) = Suc (nat (ilog2 (n div 2)))" using eq IH(1) by simp
    have d: "2 * (n div 2) \<le> n" "n < 2 * (n div 2) + 2" by presburger+
    have "(2::int) ^ nat (ilog2 n) = 2 * 2 ^ nat (ilog2 (n div 2))" by (simp add: nat_eq)
    moreover have "0 \<le> ilog2 n" using eq IH(1) by simp
    ultimately show ?thesis using IH(2,3) d by linarith
  qed
qed

lemma pow2_pos [simp]: "0 < pow2 e"
  by (simp add: pow2_def)

lemma pow2_add: "pow2 (a + b) = pow2 a * pow2 b"
  by (simp add: pow2_def power_int_add)

lemma pow2_succ: "pow2 (e + 1) = 2 * pow2 e"
  by (simp add: pow2_def power_int_add)

lemma pow2_pred: "pow2 (e - 1) = pow2 e / 2"
  using pow2_succ [of "e - 1"] by simp

lemma pow2_nat: "0 \<le> e \<Longrightarrow> pow2 e = of_int (2 ^ nat e)"
  by (simp add: pow2_def power_int_def)

lemma pow2_diff: "pow2 (a - b) = pow2 a / pow2 b"
  by (simp add: pow2_def power_int_diff)

lemma pow2_mono: "a \<le> b \<Longrightarrow> pow2 a \<le> pow2 b"
  by (simp add: pow2_def power_int_increasing)

lemma pow2_strict_mono: "a < b \<Longrightarrow> pow2 a < pow2 b"
  by (simp add: pow2_def power_int_strict_increasing)

lemma pow2_less_iff: "pow2 a < pow2 b \<longleftrightarrow> a < b"
proof
  assume "pow2 a < pow2 b"
  show "a < b"
  proof (rule ccontr)
    assume "\<not> a < b"
    then have "pow2 b \<le> pow2 a" by (intro pow2_mono) simp
    with \<open>pow2 a < pow2 b\<close> show False by simp
  qed
qed (rule pow2_strict_mono)

lemma pow2_le_iff: "pow2 a \<le> pow2 b \<longleftrightarrow> a \<le> b"
  using pow2_less_iff [of b a] by (auto simp: not_less [symmetric])

lemma binaryExponent_bounds:
  assumes "0 < r"
  shows "pow2 (binaryExponent r) \<le> r \<and> r < pow2 (binaryExponent r + 1)"
proof -
  obtain p q where pq: "quotient_of r = (p, q)" by (cases "quotient_of r")
  then have q: "0 < q" and r: "r = of_int p / of_int q"
    by (simp_all add: quotient_of_denom_pos quotient_of_div)
  from assms q r have p: "0 < p" by (simp add: zero_less_divide_iff)
  define a where "a = ilog2 p"
  define b where "b = ilog2 q"
  from ilog2_bounds [of p] p have pa: "0 \<le> a" "2 ^ nat a \<le> p" "p < 2 * 2 ^ nat a"
    by (simp_all add: a_def)
  from ilog2_bounds [of q] q have qb: "0 \<le> b" "2 ^ nat b \<le> q" "q < 2 * 2 ^ nat b"
    by (simp_all add: b_def)
  have A: "pow2 a \<le> of_int p" "of_int p < 2 * pow2 a"
  proof -
    have "(of_int (2 ^ nat a) :: rat) \<le> of_int p" using pa(2) by (simp only: of_int_le_iff)
    then show "pow2 a \<le> of_int p" by (simp add: pow2_nat pa(1))
    have "(of_int p :: rat) < of_int (2 * 2 ^ nat a)" using pa(3) by (simp only: of_int_less_iff)
    then show "of_int p < 2 * pow2 a" by (simp add: pow2_nat pa(1))
  qed
  have B: "pow2 b \<le> of_int q" "of_int q < 2 * pow2 b"
  proof -
    have "(of_int (2 ^ nat b) :: rat) \<le> of_int q" using qb(2) by (simp only: of_int_le_iff)
    then show "pow2 b \<le> of_int q" by (simp add: pow2_nat qb(1))
    have "(of_int q :: rat) < of_int (2 * 2 ^ nat b)" using qb(3) by (simp only: of_int_less_iff)
    then show "of_int q < 2 * pow2 b" by (simp add: pow2_nat qb(1))
  qed
  have qpos: "(0::rat) < of_int q" using q by simp
  have upper: "r < pow2 (a - b + 1)"
  proof -
    have "r * pow2 b \<le> r * of_int q" using B(1) assms by simp
    also have "\<dots> = of_int p" using r qpos by simp
    also have "\<dots> < 2 * pow2 a" by (rule A(2))
    finally have "r < 2 * pow2 a / pow2 b" by (simp add: pos_less_divide_eq)
    then show ?thesis by (simp add: pow2_succ pow2_diff)
  qed
  have lower: "pow2 (a - b - 1) < r"
  proof -
    have "pow2 a \<le> of_int p" by (rule A(1))
    also have "of_int p = r * of_int q" using r qpos by simp
    also have "\<dots> < r * (2 * pow2 b)" using B(2) assms by simp
    finally have "pow2 a / (2 * pow2 b) < r" by (simp add: pos_divide_less_eq mult.commute)
    moreover have "pow2 (a - b - 1) = pow2 a / (2 * pow2 b)"
      using pow2_pred [of "a - b"] by (simp add: pow2_diff)
    ultimately show ?thesis by simp
  qed
  show ?thesis
  proof (cases "pow2 (a - b) \<le> r")
    case True
    then have "binaryExponent r = a - b"
      by (simp add: binaryExponent_def pq a_def b_def)
    with True upper show ?thesis by simp
  next
    case False
    then have "binaryExponent r = a - b - 1"
      by (simp add: binaryExponent_def pq a_def b_def)
    with False lower show ?thesis by simp
  qed
qed

lemma roundHalfEven_error: "\<bar>of_int (roundHalfEven x) - x\<bar> \<le> 1 / 2"
proof -
  have f: "of_int \<lfloor>x\<rfloor> \<le> x" "x < of_int \<lfloor>x\<rfloor> + 1" by linarith+
  show ?thesis
    unfolding roundHalfEven_def Let_def using f by (auto simp: abs_le_iff)
qed

lemma roundHalfEven_of_int [simp]: "roundHalfEven (of_int n) = n"
  by (simp add: roundHalfEven_def)


lemma roundBinary64_error:
  "\<bar>roundBinary64 r - r\<bar> \<le> \<bar>r\<bar> / 2 ^ 53 + pow2 (- 1075)"
proof (cases "r = 0")
  case True
  then show ?thesis by (simp add: roundBinary64_def less_imp_le)
next
  case False
  define e where "e = binaryExponent \<bar>r\<bar>"
  define q where "q = pow2 (max e (- 1022) - 52)"
  have q: "0 < q" by (simp add: q_def)
  have v: "roundBinary64 r = of_int (roundHalfEven (r / q)) * q"
    using False by (simp add: roundBinary64_def Let_def q_def e_def)
  have "\<bar>roundBinary64 r - r\<bar> = \<bar>of_int (roundHalfEven (r / q)) - r / q\<bar> * q"
  proof -
    have "roundBinary64 r - r = (of_int (roundHalfEven (r / q)) - r / q) * q"
      using q by (simp add: v algebra_simps)
    then show ?thesis using q by (simp add: abs_mult)
  qed
  also have "\<dots> \<le> 1 / 2 * q"
    using roundHalfEven_error [of "r / q"] q by (intro mult_right_mono) simp_all
  finally have err: "\<bar>roundBinary64 r - r\<bar> \<le> q / 2" by simp
  from False binaryExponent_bounds [of "\<bar>r\<bar>"] have lo: "pow2 e \<le> \<bar>r\<bar>"
    by (simp add: e_def)
  show ?thesis
  proof (cases "- 1022 \<le> e")
    case True
    then have "q = pow2 (e - 52)" by (simp add: q_def max_def)
    then have "q / 2 = pow2 e / 2 ^ 53"
      using pow2_diff [of e 52] by (simp add: pow2_def)
    also have "\<dots> \<le> \<bar>r\<bar> / 2 ^ 53" using lo by (simp add: divide_right_mono)
    finally have "q / 2 \<le> \<bar>r\<bar> / 2 ^ 53" .
    moreover have "0 \<le> pow2 (- 1075)" by (simp add: less_imp_le)
    ultimately show ?thesis using err by linarith
  next
    case False
    then have "q = pow2 (- 1074)" by (simp add: q_def max_def)
    then have "q / 2 = pow2 (- 1075)"
      using pow2_pred [of "- 1074"] by simp
    moreover have "0 \<le> \<bar>r\<bar> / 2 ^ 53" by simp
    ultimately show ?thesis using err by linarith
  qed
qed

lemma toNumber_Finite: "toNumber r = Finite v \<Longrightarrow> v = roundBinary64 r"
  by (simp add: toNumber_def Let_def split: if_splits)

lemma floatSum_snoc: "floatSum (xs @ [x]) = jsAdd (floatSum xs) (Finite x)"
  by (simp add: floatSum_def)

lemma jsAdd_Finite_right:
  "jsAdd s (Finite x) = Finite v \<Longrightarrow> \<exists>a. s = Finite a \<and> toNumber (a + x) = Finite v"
  by (cases s) auto

lemma rounding_step:
  assumes "toNumber r = Finite v"
  shows "\<bar>v - r\<bar> \<le> \<bar>r\<bar> / 2 ^ 53 + pow2 (- 1022) / 2 ^ 53"
proof -
  have "pow2 (- 1075) = pow2 (- 1022) / 2 ^ 53"
    using pow2_diff [of "- 1022" 53] by (simp add: pow2_def)
  with roundBinary64_error [of r] toNumber_Finite [OF assms] show ?thesis by simp
qed

lemma floatSum_error:
  "floatSum xs = Finite v \<Longrightarrow>
   \<bar>v - sum_list xs\<bar>
     \<le> ((1 + 1 / 2 ^ 53) ^ length xs - 1) * (sum_list (map abs xs) + pow2 (- 1022))"
proof (induction xs arbitrary: v rule: rev_induct)
  case Nil
  then show ?case by (simp add: floatSum_def)
next
  case (snoc x xs)
  define u :: rat where "u = 1 / 2 ^ 53"
  define c where "c = pow2 (- 1022)"
  define S where "S = sum_list xs"
  define A where "A = sum_list (map abs xs)"
  define K where "K = (1 + u) ^ length xs"
  from snoc.prems obtain a where a: "floatSum xs = Finite a" "toNumber (a + x) = Finite v"
    using jsAdd_Finite_right [of "floatSum xs" x v] by (auto simp: floatSum_snoc)
  have u: "0 < u" by (simp add: u_def)
  have c: "0 < c" by (simp add: c_def)
  have A: "0 \<le> A" unfolding A_def by (rule sum_list_nonneg) auto
  have K: "1 \<le> K" using u by (simp add: K_def)
  have SA: "\<bar>S\<bar> \<le> A" unfolding S_def A_def by (rule sum_list_abs)
  have E: "\<bar>a - S\<bar> \<le> (K - 1) * (A + c)"
    using snoc.IH [OF a(1)] by (simp add: K_def u_def c_def S_def A_def)
  have step: "\<bar>v - (a + x)\<bar> \<le> u * \<bar>a + x\<bar> + u * c"
    using rounding_step [OF a(2)] by (simp add: u_def c_def)
  have "\<bar>a + x\<bar> \<le> \<bar>a - S\<bar> + (A + \<bar>x\<bar>)" using SA by linarith
  then have "u * \<bar>a + x\<bar> \<le> u * (\<bar>a - S\<bar> + (A + \<bar>x\<bar>))"
    using u by (simp add: mult_left_mono)
  with step have "\<bar>v - (S + x)\<bar> \<le> (1 + u) * \<bar>a - S\<bar> + u * (A + \<bar>x\<bar> + c)"
    by (simp add: algebra_simps)
  also have "(1 + u) * \<bar>a - S\<bar> \<le> (1 + u) * ((K - 1) * (A + c))"
    using E u by (simp add: mult_left_mono)
  also have "(K - 1) * (A + c) \<le> (K - 1) * (A + \<bar>x\<bar> + c)"
    using K by (intro mult_left_mono) simp_all
  finally have "\<bar>v - (S + x)\<bar>
      \<le> (1 + u) * ((K - 1) * (A + \<bar>x\<bar> + c)) + u * (A + \<bar>x\<bar> + c)"
    using u by (simp add: mult_left_mono)
  also have "\<dots> = ((1 + u) * K - 1) * (A + \<bar>x\<bar> + c)"
    by (simp add: algebra_simps)
  finally show ?case
    by (simp add: S_def A_def K_def u_def c_def algebra_simps)
qed

subsection \<open>The largest expense\<close>

text \<open>
  The loop of \<open>reduce\<close> from an accumulator \<open>m\<close>: either \<open>m\<close> survives and nothing in the
  list is larger, or the result is the first element that beats everything before it.
\<close>

lemma first_max_foldl:
  fixes m :: transaction
  defines "step \<equiv> (\<lambda>max t. if amount t > amount max then t else max)"
  shows "(foldl step m xs = m \<and> (\<forall>x \<in> set xs. amount x \<le> amount m))
       \<or> (\<exists>pre post. xs = pre @ foldl step m xs # post
             \<and> amount m < amount (foldl step m xs)
             \<and> (\<forall>x \<in> set pre. amount x < amount (foldl step m xs))
             \<and> (\<forall>x \<in> set post. amount x \<le> amount (foldl step m xs)))"
proof (induction xs arbitrary: m)
  case Nil
  show ?case by simp
next
  case (Cons y ys)
  show ?case
  proof (cases "amount y > amount m")
    case False
    then have eq: "foldl step m (y # ys) = foldl step m ys"
      by (simp add: step_def)
    from Cons.IH [of m] show ?thesis
    proof
      assume "foldl step m ys = m \<and> (\<forall>x \<in> set ys. amount x \<le> amount m)"
      with False eq show ?thesis by auto
    next
      assume "\<exists>pre post. ys = pre @ foldl step m ys # post
             \<and> amount m < amount (foldl step m ys)
             \<and> (\<forall>x \<in> set pre. amount x < amount (foldl step m ys))
             \<and> (\<forall>x \<in> set post. amount x \<le> amount (foldl step m ys))"
      then obtain pre post where p: "ys = pre @ foldl step m ys # post"
        "amount m < amount (foldl step m ys)"
        "\<forall>x \<in> set pre. amount x < amount (foldl step m ys)"
        "\<forall>x \<in> set post. amount x \<le> amount (foldl step m ys)"
        by blast
      from p(1) have "y # ys = (y # pre) @ foldl step m ys # post" by simp
      moreover from False p(2) have "amount y < amount (foldl step m ys)" by simp
      ultimately have "y # ys = (y # pre) @ foldl step m (y # ys) # post
          \<and> amount m < amount (foldl step m (y # ys))
          \<and> (\<forall>x \<in> set (y # pre). amount x < amount (foldl step m (y # ys)))
          \<and> (\<forall>x \<in> set post. amount x \<le> amount (foldl step m (y # ys)))"
        using p eq by simp
      then show ?thesis by blast
    qed
  next
    case True
    then have eq: "foldl step m (y # ys) = foldl step y ys"
      by (simp add: step_def)
    from Cons.IH [of y] show ?thesis
    proof
      assume a: "foldl step y ys = y \<and> (\<forall>x \<in> set ys. amount x \<le> amount y)"
      then have "y # ys = [] @ foldl step m (y # ys) # ys
          \<and> amount m < amount (foldl step m (y # ys))
          \<and> (\<forall>x \<in> set []. amount x < amount (foldl step m (y # ys)))
          \<and> (\<forall>x \<in> set ys. amount x \<le> amount (foldl step m (y # ys)))"
        using True eq by simp
      then show ?thesis by blast
    next
      assume "\<exists>pre post. ys = pre @ foldl step y ys # post
             \<and> amount y < amount (foldl step y ys)
             \<and> (\<forall>x \<in> set pre. amount x < amount (foldl step y ys))
             \<and> (\<forall>x \<in> set post. amount x \<le> amount (foldl step y ys))"
      then obtain pre post where p: "ys = pre @ foldl step y ys # post"
        "amount y < amount (foldl step y ys)"
        "\<forall>x \<in> set pre. amount x < amount (foldl step y ys)"
        "\<forall>x \<in> set post. amount x \<le> amount (foldl step y ys)"
        by blast
      from p(1) have "y # ys = (y # pre) @ foldl step y ys # post" by simp
      then have "y # ys = (y # pre) @ foldl step m (y # ys) # post
          \<and> amount m < amount (foldl step m (y # ys))
          \<and> (\<forall>x \<in> set (y # pre). amount x < amount (foldl step m (y # ys)))
          \<and> (\<forall>x \<in> set post. amount x \<le> amount (foldl step m (y # ys)))"
        using p True eq by auto
      then show ?thesis by blast
    qed
  qed
qed

text \<open>From the first element of a non-empty list: the result splits the list.\<close>

lemma first_max_reduce:
  fixes e0 :: transaction
  defines "step \<equiv> (\<lambda>max t. if amount t > amount max then t else max)"
  shows "\<exists>pre post. e0 # es = pre @ foldl step e0 (e0 # es) # post
             \<and> (\<forall>x \<in> set pre. amount x < amount (foldl step e0 (e0 # es)))
             \<and> (\<forall>x \<in> set post. amount x \<le> amount (foldl step e0 (e0 # es)))"
proof -
  have eq: "foldl step e0 (e0 # es) = foldl step e0 es"
    by (simp add: step_def)
  from first_max_foldl [of e0 es, folded step_def] show ?thesis
  proof
    assume "foldl step e0 es = e0 \<and> (\<forall>x \<in> set es. amount x \<le> amount e0)"
    then have "e0 # es = [] @ foldl step e0 (e0 # es) # es
        \<and> (\<forall>x \<in> set []. amount x < amount (foldl step e0 (e0 # es)))
        \<and> (\<forall>x \<in> set es. amount x \<le> amount (foldl step e0 (e0 # es)))"
      using eq by simp
    then show ?thesis by blast
  next
    assume "\<exists>pre post. es = pre @ foldl step e0 es # post
             \<and> amount e0 < amount (foldl step e0 es)
             \<and> (\<forall>x \<in> set pre. amount x < amount (foldl step e0 es))
             \<and> (\<forall>x \<in> set post. amount x \<le> amount (foldl step e0 es))"
    then obtain pre post where p: "es = pre @ foldl step e0 es # post"
      "amount e0 < amount (foldl step e0 es)"
      "\<forall>x \<in> set pre. amount x < amount (foldl step e0 es)"
      "\<forall>x \<in> set post. amount x \<le> amount (foldl step e0 es)"
      by blast
    from p(1) have "e0 # es = (e0 # pre) @ foldl step e0 es # post" by simp
    then have "e0 # es = (e0 # pre) @ foldl step e0 (e0 # es) # post
        \<and> (\<forall>x \<in> set (e0 # pre). amount x < amount (foldl step e0 (e0 # es)))
        \<and> (\<forall>x \<in> set post. amount x \<le> amount (foldl step e0 (e0 # es)))"
      using p eq by auto
    then show ?thesis by blast
  qed
qed

lemma filter_split_at:
  "filter P ts = pre @ r # post \<Longrightarrow>
     \<exists>pre' post'. ts = pre' @ r # post' \<and> P r
           \<and> filter P pre' = pre \<and> filter P post' = post"
proof (induction pre arbitrary: ts)
  case Nil
  then have "filter P ts = r # post" by simp
  then obtain us vs where w: "ts = us @ r # vs" "\<forall>u \<in> set us. \<not> P u" "P r"
      "post = filter P vs"
    by (auto simp: filter_eq_Cons_iff)
  then have "ts = us @ r # vs \<and> P r \<and> filter P us = [] \<and> filter P vs = post"
    by simp
  then show ?case by blast
next
  case (Cons p pre)
  then have "filter P ts = p # (pre @ r # post)" by simp
  then obtain us vs where w: "ts = us @ p # vs" "\<forall>u \<in> set us. \<not> P u" "P p"
      "pre @ r # post = filter P vs"
    by (auto simp: filter_eq_Cons_iff)
  from Cons.IH [of vs] w(4) obtain pre' post' where
    v: "vs = pre' @ r # post'" "P r" "filter P pre' = pre" "filter P post' = post"
    by auto
  have "ts = (us @ p # pre') @ r # post' \<and> P r
        \<and> filter P (us @ p # pre') = p # pre \<and> filter P post' = post"
    using w(1,2,3) v by simp
  then show ?case by blast
qed

text \<open>
  Claim C4. The largest expense is the expense of maximal amount, the first one in input
  order among equals: the input splits around it, every expense before it is strictly
  smaller and every expense after it is no larger. Without any expense the result is
  \<open>None\<close> (the \<open>null\<close> of the source), not an error.
\<close>

theorem highestExpense_first_maximum:
  "((\<forall>t \<in> set ts. type t \<noteq> ''expense'') \<longrightarrow> highestExpenseOf ts = None)
   \<and> ((\<exists>t \<in> set ts. type t = ''expense'') \<longrightarrow>
        (\<exists>pre e post. ts = pre @ e # post \<and> highestExpenseOf ts = Some e
           \<and> type e = ''expense''
           \<and> (\<forall>x \<in> set pre. type x = ''expense'' \<longrightarrow> amount x < amount e)
           \<and> (\<forall>x \<in> set post. type x = ''expense'' \<longrightarrow> amount x \<le> amount e)))"
proof (intro conjI impI)
  assume "\<forall>t \<in> set ts. type t \<noteq> ''expense''"
  then have "filter (\<lambda>t. type t = ''expense'') ts = []"
    by (simp add: filter_empty_conv)
  then show "highestExpenseOf ts = None"
    by (simp add: highestExpenseOf_def)
next
  let ?P = "\<lambda>t. type t = ''expense''"
  let ?step = "\<lambda>max t. if amount t > amount max then t else max"
  assume "\<exists>t \<in> set ts. type t = ''expense''"
  then have "filter ?P ts \<noteq> []"
    by (simp add: filter_empty_conv)
  then obtain e0 es where es: "filter ?P ts = e0 # es"
    by (cases "filter ?P ts") auto
  define r where "r = foldl ?step e0 (e0 # es)"
  have res: "highestExpenseOf ts = Some r"
    by (simp add: highestExpenseOf_def es r_def)
  from first_max_reduce [of e0 es] obtain pre post where
    sp: "e0 # es = pre @ r # post"
        "\<forall>x \<in> set pre. amount x < amount r" "\<forall>x \<in> set post. amount x \<le> amount r"
    unfolding r_def by blast
  from sp(1) es have "filter ?P ts = pre @ r # post" by simp
  from filter_split_at [OF this] obtain pre' post' where
    t: "ts = pre' @ r # post'" "type r = ''expense''"
       "filter ?P pre' = pre" "filter ?P post' = post"
    by blast
  have "\<forall>x \<in> set pre'. type x = ''expense'' \<longrightarrow> amount x < amount r"
  proof (intro ballI impI)
    fix x assume "x \<in> set pre'" "type x = ''expense''"
    then have "x \<in> set (filter ?P pre')" by simp
    with t(3) sp(2) show "amount x < amount r" by simp
  qed
  moreover have "\<forall>x \<in> set post'. type x = ''expense'' \<longrightarrow> amount x \<le> amount r"
  proof (intro ballI impI)
    fix x assume "x \<in> set post'" "type x = ''expense''"
    then have "x \<in> set (filter ?P post')" by simp
    with t(4) sp(3) show "amount x \<le> amount r" by simp
  qed
  ultimately show "\<exists>pre e post. ts = pre @ e # post \<and> highestExpenseOf ts = Some e
           \<and> type e = ''expense''
           \<and> (\<forall>x \<in> set pre. type x = ''expense'' \<longrightarrow> amount x < amount e)
           \<and> (\<forall>x \<in> set post. type x = ''expense'' \<longrightarrow> amount x \<le> amount e)"
    using t(1,2) res by blast
qed

theorem highestExpense_first_maximum_witness:
  "(\<exists>t \<in> set [food, rent, salary]. type t = ''expense'')
   \<and> (\<exists>pre e post. [food, rent, salary] = pre @ e # post
         \<and> highestExpenseOf [food, rent, salary] = Some e
         \<and> type e = ''expense''
         \<and> (\<forall>x \<in> set pre. type x = ''expense'' \<longrightarrow> amount x < amount e)
         \<and> (\<forall>x \<in> set post. type x = ''expense'' \<longrightarrow> amount x \<le> amount e))
   \<and> type salary \<noteq> ''expense''
   \<and> highestExpenseOf [salary] = None"
  using highestExpense_first_maximum [of "[food, rent, salary]"]
        highestExpense_first_maximum [of "[salary]"]
  by (simp add: food_def rent_def salary_def)

subsection \<open>The month key\<close>

lemma isDigit_digitChar: "n < 10 \<Longrightarrow> isDigit (digitChar n)"
  by (simp add: isDigit_def digitChar_def less_eq_char_def)

lemma of_char_digitChar: "n < 10 \<Longrightarrow> (of_char (digitChar n) :: int) = 48 + int n"
proof -
  assume "n < 10"
  then have "(of_char (digitChar n) :: nat) = 48 + n"
    by (simp add: digitChar_def)
  then have "int (of_char (digitChar n)) = 48 + int n" by simp
  then show ?thesis by (simp only: of_nat_of_char)
qed

lemma not_isDigit_minus: "\<not> isDigit CHR ''-''"
  by (simp add: isDigit_def less_eq_char_def)

lemma digitsOf_digits: "list_all isDigit (digitsOf n)"
proof (induction n rule: digitsOf.induct)
  case (1 n)
  show ?case
  proof (cases "n < 10")
    case True
    then show ?thesis by (simp add: digitsOf.simps [of n] isDigit_digitChar)
  next
    case False
    with 1 show ?thesis by (simp add: digitsOf.simps [of n] isDigit_digitChar)
  qed
qed

lemma digitsOf_nonempty: "digitsOf n \<noteq> []"
  by (simp add: digitsOf.simps [of n])

lemma readNat_snoc: "readNat (s @ [c]) = 10 * readNat s + (of_char c - 48)"
  by (simp add: readNat_def)

lemma readNat_digitsOf: "readNat (digitsOf n) = int n"
proof (induction n rule: digitsOf.induct)
  case (1 n)
  show ?case
  proof (cases "n < 10")
    case True
    then show ?thesis by (simp add: digitsOf.simps [of n] readNat_def of_char_digitChar)
  next
    case False
    have "10 * int (n div 10) + int (n mod 10) = int n"
      by (simp add: zdiv_int zmod_int)
    with False 1 show ?thesis
      by (simp add: digitsOf.simps [of n] readNat_snoc of_char_digitChar)
  qed
qed

lemma takeWhile_digits: "takeWhile isDigit (digitsOf n @ CHR ''-'' # rest) = digitsOf n"
  using digitsOf_digits [of n] by (simp add: takeWhile_append2 list_all_iff not_isDigit_minus)

lemma dropWhile_digits: "dropWhile isDigit (digitsOf n @ CHR ''-'' # rest) = CHR ''-'' # rest"
  using digitsOf_digits [of n] by (simp add: dropWhile_append2 list_all_iff not_isDigit_minus)

lemma digitsOf_hd: "hd (digitsOf n) \<noteq> CHR ''-''"
  using digitsOf_digits [of n] digitsOf_nonempty [of n] not_isDigit_minus
  by (cases "digitsOf n") auto

lemma leadingInt_numberToString:
  "leadingInt (numberToString i @ CHR ''-'' # rest) = (i, CHR ''-'' # rest)"
proof (cases "i < 0")
  case True
  then show ?thesis
    by (simp add: leadingInt_def numberToString_def takeWhile_digits dropWhile_digits
        readNat_digitsOf)
next
  case False
  define s where "s = digitsOf (nat i) @ CHR ''-'' # rest"
  obtain c r where cr: "digitsOf (nat i) = c # r"
    using digitsOf_nonempty [of "nat i"] by (cases "digitsOf (nat i)") auto
  with digitsOf_hd [of "nat i"] have c: "c \<noteq> CHR ''-''" by simp
  have "s = c # (r @ CHR ''-'' # rest)" by (simp add: s_def cr)
  with c have "leadingInt s = (readNat (takeWhile isDigit s), dropWhile isDigit s)"
    by (simp add: leadingInt_def)
  moreover have "takeWhile isDigit s = digitsOf (nat i)"
    unfolding s_def by (rule takeWhile_digits)
  moreover have "dropWhile isDigit s = CHR ''-'' # rest"
    unfolding s_def by (rule dropWhile_digits)
  ultimately have "leadingInt s = (i, CHR ''-'' # rest)"
    using False by (simp add: readNat_digitsOf)
  with False show ?thesis by (simp add: numberToString_def s_def)
qed

lemma numberToString_inj: "numberToString i = numberToString j \<Longrightarrow> i = j"
proof -
  assume "numberToString i = numberToString j"
  then have "leadingInt (numberToString i @ CHR ''-'' # []) = leadingInt (numberToString j @ CHR ''-'' # [])"
    by simp
  then show "i = j" by (simp add: leadingInt_numberToString)
qed

lemma dashed_inj:
  assumes "numberToString a @ ''-'' @ numberToString b = numberToString c @ ''-'' @ numberToString d"
  shows "a = c \<and> b = d"
proof -
  from assms have "leadingInt (numberToString a @ CHR ''-'' # numberToString b)
      = leadingInt (numberToString c @ CHR ''-'' # numberToString d)" by simp
  then have "a = c" "numberToString b = numberToString d"
    by (simp_all add: leadingInt_numberToString)
  then show ?thesis by (simp add: numberToString_inj)
qed

lemma numberToString_not_N: "hd (numberToString i @ s) \<noteq> CHR ''N''"
proof (cases "i < 0")
  case True
  then show ?thesis by (simp add: numberToString_def)
next
  case False
  obtain c r where cr: "digitsOf (nat i) = c # r"
    using digitsOf_nonempty [of "nat i"] by (cases "digitsOf (nat i)") auto
  have "isDigit c" using digitsOf_digits [of "nat i"] cr by simp
  moreover have "\<not> isDigit CHR ''N''" by (simp add: isDigit_def less_eq_char_def)
  ultimately have "c \<noteq> CHR ''N''" by auto
  with False cr show ?thesis by (simp add: numberToString_def)
qed

lemma monthKey_eq_iff: "monthKey rt t = monthKey rt u \<longleftrightarrow> sameMonth rt t u"
proof (cases "newDate rt (date t)")
  case None
  note nt = None
  show ?thesis
  proof (cases "newDate rt (date u)")
    case None
    with nt show ?thesis by (simp add: monthKey_def sameMonth_def)
  next
    case (Some b)
    have "hd (numberToString (getFullYear rt b) @ ''-'' @ numberToString (getMonth rt b + 1)) \<noteq> CHR ''N''"
      by (rule numberToString_not_N)
    then have "''NaN-NaN'' \<noteq> numberToString (getFullYear rt b) @ ''-'' @ numberToString (getMonth rt b + 1)"
      by (metis list.sel(1))
    with nt Some show ?thesis by (simp add: monthKey_def sameMonth_def)
  qed
next
  case (Some a)
  note st = Some
  show ?thesis
  proof (cases "newDate rt (date u)")
    case None
    have "hd (numberToString (getFullYear rt a) @ ''-'' @ numberToString (getMonth rt a + 1)) \<noteq> CHR ''N''"
      by (rule numberToString_not_N)
    then have "numberToString (getFullYear rt a) @ ''-'' @ numberToString (getMonth rt a + 1) \<noteq> ''NaN-NaN''"
      by (metis list.sel(1))
    with st None show ?thesis by (simp add: monthKey_def sameMonth_def)
  next
    case (Some b)
    have "numberToString (getFullYear rt a) @ ''-'' @ numberToString (getMonth rt a + 1)
          = numberToString (getFullYear rt b) @ ''-'' @ numberToString (getMonth rt b + 1)
          \<longleftrightarrow> getFullYear rt a = getFullYear rt b \<and> getMonth rt a = getMonth rt b"
      using dashed_inj [of "getFullYear rt a" "getMonth rt a + 1" "getFullYear rt b" "getMonth rt b + 1"]
      by auto
    with st Some show ?thesis by (simp add: monthKey_def sameMonth_def)
  qed
qed

lemma monthKey_has_mark: "CHR ''-'' \<in> set (monthKey rt t)"
  by (simp add: monthKey_def split: option.splits)

lemma monthKey_not_index: "\<not> isArrayIndex (monthKey rt t)"
  using monthKey_has_mark [of rt t] not_isDigit_minus
  by (auto simp: isArrayIndex_def list_all_iff)

lemma monthKey_not_inherited: "monthKey rt t \<notin> set objectPrototypeKeys"
proof
  assume "monthKey rt t \<in> set objectPrototypeKeys"
  moreover have "\<forall>k \<in> set objectPrototypeKeys. CHR ''-'' \<notin> set k"
    by (simp add: objectPrototypeKeys_def)
  ultimately show False using monthKey_has_mark [of rt t] by blast
qed

subsection \<open>The months object\<close>

lemma setOwn_fresh: "k \<notin> fst ` set obj \<Longrightarrow> setOwn k v obj = obj @ [(k, v)]"
  by (induction obj) auto

lemma modifyOwn_keyed:
  "modifyOwn k f (map (\<lambda>x. (x, g x)) ks) = map (\<lambda>x. (x, if x = k then f (g x) else g x)) ks"
  by (simp add: modifyOwn_def)

lemma map_of_keyed:
  "map_of (map (\<lambda>x. (x, g x)) ks) k = (if k \<in> set ks then Some (g k) else None)"
  by (induction ks) auto

lemma firstSeen_snoc:
  "firstSeen (ks @ [k]) = (if k \<in> set ks then firstSeen ks else firstSeen ks @ [k])"
  by (simp add: firstSeen_def)

lemma set_firstSeen [simp]: "set (firstSeen ks) = set ks"
  by (simp add: firstSeen_def)

lemma distinct_firstSeen [simp]: "distinct (firstSeen ks)"
  by (simp add: firstSeen_def)

lemma totalsOf_absent:
  "k \<notin> monthKey rt ` set ts \<Longrightarrow>
   totalsOf rt ts k = \<lparr>income = Finite 0, expenses = Finite 0\<rparr>"
proof -
  assume a: "k \<notin> monthKey rt ` set ts"
  then have "filter (\<lambda>t. monthKey rt t = k \<and> type t = ''income'') ts = []"
    and "filter (\<lambda>t. monthKey rt t = k \<and> type t \<noteq> ''income'') ts = []"
    by (auto simp: filter_empty_conv)
  then show ?thesis by (simp add: totalsOf_def monthIncome_def monthOther_def floatSum_def)
qed

lemma totalsOf_snoc:
  "totalsOf rt (ts @ [t]) k =
     (if k = monthKey rt t
      then (if type t = ''income''
            then (totalsOf rt ts k)
                   \<lparr>income := jsAdd (income (totalsOf rt ts k)) (Finite (amount t))\<rparr>
            else (totalsOf rt ts k)
                   \<lparr>expenses := jsAdd (expenses (totalsOf rt ts k)) (Finite (amount t))\<rparr>)
      else totalsOf rt ts k)"
  by (auto simp: totalsOf_def monthIncome_def monthOther_def floatSum_snoc)

lemma monthsOf_snoc: "monthsOf rt (ts @ [t]) = monthStep rt (monthsOf rt ts) t"
  by (simp add: monthsOf_def)

lemma monthsOf_totals:
  "monthsOf rt ts = map (\<lambda>k. (k, totalsOf rt ts k)) (firstSeen (map (monthKey rt) ts))"
proof (induction ts rule: rev_induct)
  case Nil
  show ?case by (simp add: monthsOf_def firstSeen_def)
next
  case (snoc t ts)
  define key where "key = monthKey rt t"
  define ks where "ks = firstSeen (map (monthKey rt) ts)"
  define ks' where "ks' = firstSeen (map (monthKey rt) (ts @ [t]))"
  define M where "M = map (\<lambda>k. (k, totalsOf rt ts k)) ks"
  define months1 where "months1 = (case map_of M key of
                       None \<Rightarrow> setOwn key \<lparr>income = Finite 0, expenses = Finite 0\<rparr> M
                     | Some _ \<Rightarrow> M)"
  have ks'_eq: "ks' = (if key \<in> set ks then ks else ks @ [key])"
    by (simp add: ks'_def ks_def key_def firstSeen_snoc)
  have m1: "months1 = map (\<lambda>k. (k, totalsOf rt ts k)) ks'"
  proof (cases "key \<in> set ks")
    case True
    then have "map_of M key = Some (totalsOf rt ts key)" by (simp add: M_def map_of_keyed)
    with True show ?thesis by (simp add: months1_def ks'_eq M_def)
  next
    case False
    then have "map_of M key = None" by (simp add: M_def map_of_keyed)
    moreover have "key \<notin> fst ` set M" using False by (auto simp: M_def)
    moreover have "totalsOf rt ts key = \<lparr>income = Finite 0, expenses = Finite 0\<rparr>"
      using False by (intro totalsOf_absent) (simp add: ks_def key_def)
    ultimately show ?thesis using False
      by (simp add: months1_def setOwn_fresh ks'_eq M_def)
  qed
  have "monthsOf rt (ts @ [t]) = monthStep rt M t"
    by (simp add: monthsOf_snoc snoc.IH M_def ks_def)
  also have "\<dots> = (if type t = ''income''
         then modifyOwn key (\<lambda>m. m\<lparr>income := jsAdd (income m) (Finite (amount t))\<rparr>) months1
         else modifyOwn key
                (\<lambda>m. m\<lparr>expenses := jsAdd (expenses m) (Finite (amount t))\<rparr>) months1)"
    unfolding monthStep_def months1_def key_def Let_def by simp
  also have "\<dots> = map (\<lambda>k. (k, totalsOf rt (ts @ [t]) k)) ks'"
    by (simp add: m1 modifyOwn_keyed totalsOf_snoc key_def)
  finally show ?case by (simp add: ks'_def)
qed

lemma objectKeys_plain:
  "\<forall>k \<in> fst ` set obj. \<not> isArrayIndex k \<Longrightarrow> objectKeys obj = map fst obj"
proof -
  assume a: "\<forall>k \<in> fst ` set obj. \<not> isArrayIndex k"
  then have "filter isArrayIndex (map fst obj) = []"
    by (auto simp: filter_empty_conv)
  moreover from a have "filter (\<lambda>k. \<not> isArrayIndex k) (map fst obj) = map fst obj"
    by (auto simp: filter_id_conv)
  ultimately show ?thesis by (simp add: objectKeys_def)
qed

lemma processMonthlyData_points:
  "processMonthlyData rt ts =
     map (\<lambda>k. \<lparr>income = monthIncome rt k ts, expenses = monthOther rt k ts, month = k\<rparr>)
         (firstSeen (map (monthKey rt) ts))"
proof -
  define ks where "ks = firstSeen (map (monthKey rt) ts)"
  have M: "monthsOf rt ts = map (\<lambda>k. (k, totalsOf rt ts k)) ks"
    by (simp add: monthsOf_totals ks_def)
  have "\<forall>k \<in> fst ` set (monthsOf rt ts). \<not> isArrayIndex k"
    by (auto simp: M ks_def monthKey_not_index)
  then have keys: "objectKeys (monthsOf rt ts) = ks"
    by (simp add: objectKeys_plain) (simp add: M comp_def)
  have "\<And>k. k \<in> set ks \<Longrightarrow> the (map_of (monthsOf rt ts) k) = totalsOf rt ts k"
    by (simp add: M map_of_keyed)
  then show ?thesis
    by (simp add: processMonthlyData_def Let_def keys totalsOf_def ks_def [symmetric])
qed

subsection \<open>Seeding the default categories\<close>

lemma categories_consoleWrite [simp]: "categories (consoleWrite l w) = categories w"
  by (simp add: consoleWrite_def)

lemma createDefaultCategories_inserted:
  "categories (snd (createDefaultCategories userId Inserted w)) = categories w @ defaultRows userId"
  by (simp add: createDefaultCategories_def Let_def)

lemma length_defaultRows: "length (defaultRows userId) = 13"
  by (simp add: defaultRows_def defaultCategories_def)

lemma defaultRows_owner: "map user_id (defaultRows userId) = replicate 13 userId"
  by (simp add: defaultRows_def defaultCategories_def numeral_eq_Suc)

lemma defaultRows_names:
  "map (\<lambda>r. (name r, categoryDefault.type r)) (defaultRows userId) =
     [(''Alimenta'' @ [CHR 0xE7, CHR 0xE3] @ ''o'', ''expense''), (''Transporte'', ''expense''),
      (''Moradia'', ''expense''), (''Sa'' @ [CHR 0xFA] @ ''de'', ''expense''),
      (''Educa'' @ [CHR 0xE7, CHR 0xE3] @ ''o'', ''expense''), (''Lazer'', ''expense''),
      (''Compras'', ''expense''), (''Outros'', ''expense''),
      (''Sal'' @ [CHR 0xE1] @ ''rio'', ''income''), (''Freelance'', ''income''),
      (''Investimentos'', ''income''), (''Presentes'', ''income''), (''Outros'', ''income'')]"
  by (simp add: defaultRows_def defaultCategories_def)

text \<open>
  Claim C8. When the insert succeeds, \<open>createDefaultCategories\<close> adds to the table
  exactly the 13 rows of the fixed list for the given user, eight of type \<open>expense\<close> and
  five of type \<open>income\<close>, and checks nothing before: a second call adds the 13 rows again,
  26 rows from an empty table. The two callers meet this way: after a successful
  \<open>signUp\<close>, the \<open>SIGNED_IN\<close> event of a user created less than five minutes ago seeds a
  second time.
\<close>

theorem createDefaultCategories_twice:
  "categories (snd (createDefaultCategories userId Inserted w)) = categories w @ defaultRows userId
   \<and> length (defaultRows userId) = 13
   \<and> map user_id (defaultRows userId) = replicate 13 userId
   \<and> map (\<lambda>r. (name r, categoryDefault.type r)) (defaultRows userId) =
     [(''Alimenta'' @ [CHR 0xE7, CHR 0xE3] @ ''o'', ''expense''), (''Transporte'', ''expense''),
      (''Moradia'', ''expense''), (''Sa'' @ [CHR 0xFA] @ ''de'', ''expense''),
      (''Educa'' @ [CHR 0xE7, CHR 0xE3] @ ''o'', ''expense''), (''Lazer'', ''expense''),
      (''Compras'', ''expense''), (''Outros'', ''expense''),
      (''Sal'' @ [CHR 0xE1] @ ''rio'', ''income''), (''Freelance'', ''income''),
      (''Investimentos'', ''income''), (''Presentes'', ''income''), (''Outros'', ''income'')]
   \<and> categories (snd (createDefaultCategories userId Inserted
                         (snd (createDefaultCategories userId Inserted w))))
       = categories w @ defaultRows userId @ defaultRows userId
   \<and> length (categories (snd (createDefaultCategories userId Inserted
                         (snd (createDefaultCategories userId Inserted emptyWorld))))) = 26
   \<and> ((of_int (now - created_at u) :: rat) / (1000 * 60) < 5 \<longrightarrow>
        categories (onAuthStateChange ''SIGNED_IN'' (Some u) now Inserted
                      (snd (signUp email password (AuthResult (Some u) None) Inserted w)))
        = categories w @ defaultRows (uid u) @ defaultRows (uid u))"
proof -
  have two: "(of_int (now - created_at u) :: rat) / (1000 * 60) < 5 \<longrightarrow>
        categories (onAuthStateChange ''SIGNED_IN'' (Some u) now Inserted
                      (snd (signUp email password (AuthResult (Some u) None) Inserted w)))
        = categories w @ defaultRows (uid u) @ defaultRows (uid u)"
    by (simp add: onAuthStateChange_def signUp_def Let_def createDefaultCategories_inserted)
  show ?thesis
    using two
    by (simp add: createDefaultCategories_inserted length_defaultRows defaultRows_owner
        defaultRows_names emptyWorld_def)
qed

text \<open>Claim C8 for a user created at the epoch whose \<open>SIGNED_IN\<close> event comes a minute later.\<close>

theorem createDefaultCategories_twice_witness:
  "(of_int (60000 - created_at user1) :: rat) / (1000 * 60) < 5
   \<and> length (categories (onAuthStateChange ''SIGNED_IN'' (Some user1) 60000 Inserted
         (snd (signUp ''a@b.c'' ''secret'' (AuthResult (Some user1) None) Inserted emptyWorld))))
     = 26"
proof -
  have h: "(of_int (60000 - created_at user1) :: rat) / (1000 * 60) < 5"
    by (simp add: user1_def)
  from createDefaultCategories_twice [of "uid user1" emptyWorld 60000 user1 "''a@b.c''" "''secret''"] h
  have "categories (onAuthStateChange ''SIGNED_IN'' (Some user1) 60000 Inserted
         (snd (signUp ''a@b.c'' ''secret'' (AuthResult (Some user1) None) Inserted emptyWorld)))
        = categories emptyWorld @ defaultRows (uid user1) @ defaultRows (uid user1)"
    by blast
  then show ?thesis using h by (simp add: length_defaultRows emptyWorld_def)
qed

lemma console_consoleWrite [simp]: "console (consoleWrite l w) = console w @ [l]"
  by (simp add: consoleWrite_def)

text \<open>
  Claim C9, as the code has it. Whatever the insert does, the promise of
  \<open>createDefaultCategories\<close> resolves: a store error, returned or thrown, is written to
  the console after the opening line and nothing is handed to the caller. The result of
  \<open>signUp\<close> is the one of the account creation, the same for every outcome of the
  seeding.
\<close>

theorem seeding_failure_is_logged_only:
  "fst (createDefaultCategories userId outcome w) = Inr ()
   \<and> createDefaultCategories userId (Refused e) w
       = (Inr (), w\<lparr>console := console w @ [CreatingDefaults userId, InsertErrorLogged e]\<rparr>)
   \<and> createDefaultCategories userId (Thrown e) w
       = (Inr (), w\<lparr>console := console w @ [CreatingDefaults userId, CreationExceptionLogged e]\<rparr>)
   \<and> fst (signUp email password (AuthResult (Some u) None) outcome w)
       = \<lparr>data = Some (Some u), error = None\<rparr>
   \<and> fst (signUp email password auth outcome w) = fst (signUp email password auth Inserted w)"
proof -
  have a: "fst (createDefaultCategories userId outcome w) = Inr ()"
    by (cases outcome) (simp_all add: createDefaultCategories_def Let_def)
  have b: "createDefaultCategories userId (Refused e) w
       = (Inr (), w\<lparr>console := console w @ [CreatingDefaults userId, InsertErrorLogged e]\<rparr>)"
    by (simp add: createDefaultCategories_def Let_def consoleWrite_def)
  have c: "createDefaultCategories userId (Thrown e) w
       = (Inr (), w\<lparr>console := console w @ [CreatingDefaults userId, CreationExceptionLogged e]\<rparr>)"
    by (simp add: createDefaultCategories_def Let_def consoleWrite_def)
  have d: "fst (signUp email password (AuthResult (Some u) None) outcome w)
       = \<lparr>data = Some (Some u), error = None\<rparr>"
    by (simp add: signUp_def Let_def)
  have e: "fst (signUp email password auth outcome w) = fst (signUp email password auth Inserted w)"
    by (cases auth) (auto simp: signUp_def Let_def split: option.splits)
  from a b c d e show ?thesis by simp
qed

text \<open>
  Claim C9 as the specification words it fails: with an insert that returns the error
  \<open>store unreachable\<close>, the caller receives what it receives after a successful insert,
  and no error.
\<close>

theorem seeding_error_not_returned_counterexample:
  "fst (createDefaultCategories ''user1'' (Refused ''store unreachable'') emptyWorld) = Inr ()
   \<and> fst (createDefaultCategories ''user1'' (Refused ''store unreachable'') emptyWorld)
       \<noteq> Inl ''store unreachable''
   \<and> fst (createDefaultCategories ''user1'' (Refused ''store unreachable'') emptyWorld)
       = fst (createDefaultCategories ''user1'' Inserted emptyWorld)"
  by (simp add: createDefaultCategories_def Let_def)

subsection \<open>The filter\<close>

lemma filterTransactions_filter:
  "filterTransactions rt ts filterType filterCategory startDate endDate searchText
     = filter (keeps rt filterType filterCategory startDate endDate searchText) ts"
  unfolding filterTransactions_def Let_def keeps_def
  by (auto intro: filter_cong)

text \<open>
  Claim C7. Filtering the stored list again with the same criteria changes nothing.
\<close>

theorem filterTransactions_idempotent:
  "filterTransactions rt
     (filterTransactions rt ts filterType filterCategory startDate endDate searchText)
     filterType filterCategory startDate endDate searchText
   = filterTransactions rt ts filterType filterCategory startDate endDate searchText"
  by (simp add: filterTransactions_filter)

lemma food_date_tokyo: "newDate (deviceRuntime 32400000) (date food) = Some 1704844800000"
  by code_simp

lemma busFare_date_brasilia: "newDate (deviceRuntime (- 10800000)) (date busFare) = Some 1704067200000"
  by code_simp

text \<open>
  Claim C2 does not hold of the code, which compares time values. On a device nine hours
  east of UTC, with the end bound at 05:00 local time of 10 January 2024 and the start
  bound at local midnight of 1 January, the expense dated 2024-01-10 (day 19732 in every
  reading) is on the calendar day of the end bound and is dropped: its date parses to
  midnight UTC, four hours after the bound. On a device three hours west of UTC, with the
  default start bound (local midnight of the first day of the month), the expense dated
  2024-01-01 is on the calendar day of the start bound and is dropped as well.
\<close>

theorem date_filter_compares_time_values:
  "newDate (deviceRuntime 32400000) (date food) = Some 1704844800000
   \<and> localDay 0 1704844800000 = 19732
   \<and> localDay 32400000 1704844800000 = 19732
   \<and> localDay 32400000 1704830400000 = 19732
   \<and> localDay 32400000 1704034800000 = 19723
   \<and> filterTransactions (deviceRuntime 32400000) [food] ''all'' [] 1704034800000 1704830400000 [] = []
   \<and> newDate (deviceRuntime (- 10800000)) (date busFare) = Some 1704067200000
   \<and> localDay 0 1704067200000 = 19723
   \<and> localDay (- 10800000) 1704078000000 = 19723
   \<and> localDay (- 10800000) 1705752000000 = 19742
   \<and> filterTransactions (deviceRuntime (- 10800000)) [busFare] ''all'' []
        1704078000000 1705752000000 [] = []"
proof -
  have days: "localDay 0 1704844800000 = 19732" "localDay 32400000 1704844800000 = 19732"
    "localDay 32400000 1704830400000 = 19732" "localDay 32400000 1704034800000 = 19723"
    "localDay 0 1704067200000 = 19723" "localDay (- 10800000) 1704078000000 = 19723"
    "localDay (- 10800000) 1705752000000 = 19742"
    by (simp_all add: localDay_def msPerDay_def)
  have f1: "filterTransactions (deviceRuntime 32400000) [food] ''all'' []
              1704034800000 1704830400000 [] = []"
    by (simp add: filterTransactions_def inDateRange_def food_date_tokyo)
  have f2: "filterTransactions (deviceRuntime (- 10800000)) [busFare] ''all'' []
        1704078000000 1705752000000 [] = []"
    by (simp add: filterTransactions_def inDateRange_def busFare_date_brasilia)
  from days f1 f2 food_date_tokyo busFare_date_brasilia show ?thesis by simp
qed

text \<open>
  The stored list is a subsequence of the loaded transactions, in their order, so its
  elements are among them, and an empty input gives an empty list.
\<close>

lemma filterTransactions_subseq:
  "subseq (filterTransactions rt ts filterType filterCategory startDate endDate searchText) ts"
  "set (filterTransactions rt ts filterType filterCategory startDate endDate searchText) \<subseteq> set ts"
  "filterTransactions rt [] filterType filterCategory startDate endDate searchText = []"
  by (simp_all add: filterTransactions_filter)

lemma scenario_dates_tokyo:
  "newDate (deviceRuntime 32400000) (date rent) = Some 1705276800000"
  "newDate (deviceRuntime 32400000) (date salary) = Some 1704412800000"
  by code_simp+

text \<open>
  Claim C6 does not hold of the code in its second half, by the defect of claim C2: the
  bounds are compared as time values. On a device nine hours east of UTC, with the type
  filter at \<open>all\<close>, an empty category filter and an empty search text, the start bound
  at local midnight of 1 January 2024 (day 19723) and the end bound at 08:00 local time of
  15 January (day 19737), the range covers the dates of the three transactions of the
  scenario (days 19732, 19737 and 19727), and the rent dated 2024-01-15 is dropped: its
  date parses to midnight UTC, an hour after the end bound.
\<close>

theorem filterTransactions_drops_covered_date:
  "newDate (deviceRuntime 32400000) (date food) = Some 1704844800000
   \<and> newDate (deviceRuntime 32400000) (date rent) = Some 1705276800000
   \<and> newDate (deviceRuntime 32400000) (date salary) = Some 1704412800000
   \<and> localDay 0 1704844800000 = 19732
   \<and> localDay 0 1705276800000 = 19737
   \<and> localDay 0 1704412800000 = 19727
   \<and> localDay 32400000 1704034800000 = 19723
   \<and> localDay 32400000 1705273200000 = 19737
   \<and> filterTransactions (deviceRuntime 32400000) [food, rent, salary] ''all'' []
        1704034800000 1705273200000 [] = [food, salary]
   \<and> filterTransactions (deviceRuntime 32400000) [food, rent, salary] ''all'' []
        1704034800000 1705273200000 [] \<noteq> [food, rent, salary]"
proof -
  have days: "localDay 0 1704844800000 = 19732" "localDay 0 1705276800000 = 19737"
    "localDay 0 1704412800000 = 19727" "localDay 32400000 1704034800000 = 19723"
    "localDay 32400000 1705273200000 = 19737"
    by (simp_all add: localDay_def msPerDay_def)
  have f: "filterTransactions (deviceRuntime 32400000) [food, rent, salary] ''all'' []
        1704034800000 1705273200000 [] = [food, salary]"
    by (simp add: filterTransactions_def inDateRange_def food_date_tokyo scenario_dates_tokyo)
  from days f food_date_tokyo scenario_dates_tokyo show ?thesis by simp
qed

subsection \<open>The most used category\<close>

lemma setOwn_keyed:
  "distinct ks \<Longrightarrow>
   setOwn k v (map (\<lambda>x. (x, g x)) ks) =
     (if k \<in> set ks then map (\<lambda>x. (x, if x = k then v else g x)) ks
      else map (\<lambda>x. (x, g x)) ks @ [(k, v)])"
  by (induction ks) auto

lemma occurrences_snoc:
  "occurrences k (ts @ [t]) = (if categoryKey t = k then occurrences k ts + 1 else occurrences k ts)"
  by (simp add: occurrences_def)

lemma occurrences_absent: "k \<notin> categoryKey ` set ts \<Longrightarrow> occurrences k ts = 0"
  by (auto simp: occurrences_def filter_empty_conv)

lemma categoryCountOf_counts:
  "\<forall>t \<in> set ts. categoryKey t \<notin> set objectPrototypeKeys \<Longrightarrow>
   categoryCountOf ts = map (\<lambda>k. (k, Num (occurrences k ts))) (firstSeen (map categoryKey ts))"
proof (induction ts rule: rev_induct)
  case Nil
  show ?case by (simp add: categoryCountOf_def firstSeen_def)
next
  case (snoc t ts)
  define k where "k = categoryKey t"
  define ks where "ks = firstSeen (map categoryKey ts)"
  define M where "M = map (\<lambda>k. (k, Num (occurrences k ts))) ks"
  have IH: "categoryCountOf ts = M"
    using snoc by (simp add: M_def ks_def)
  have notproto: "k \<notin> set objectPrototypeKeys" using snoc.prems by (simp add: k_def)
  then have np: "k \<noteq> ''__proto__''" by (auto simp: objectPrototypeKeys_def)
  have look: "getProp M k = (if k \<in> set ks then Num (occurrences k ts) else Undefined)"
    using notproto by (simp add: getProp_def M_def map_of_keyed)
  have kt: "categoryKey t = k" by (simp add: k_def)
  have plus: "orZeroPlusOne (getProp M k) = Num (occurrences k (ts @ [t]))"
  proof (cases "k \<in> set ks")
    case True
    then show ?thesis by (simp add: look orZeroPlusOne_def occurrences_snoc kt)
  next
    case False
    then have "occurrences k ts = 0"
      by (intro occurrences_absent) (simp add: ks_def)
    with False show ?thesis by (simp add: look orZeroPlusOne_def occurrences_snoc kt)
  qed
  have "categoryCountOf (ts @ [t]) = countStep M t"
    by (simp add: categoryCountOf_def IH [unfolded categoryCountOf_def])
  also have "\<dots> = setOwn k (Num (occurrences k (ts @ [t]))) M"
    using np plus by (simp add: countStep_def Let_def setProp_def kt [symmetric] categoryKey_def)
  also have "\<dots> = map (\<lambda>x. (x, Num (occurrences x (ts @ [t]))))
                     (firstSeen (map categoryKey (ts @ [t])))"
    by (auto simp: M_def setOwn_keyed ks_def firstSeen_snoc occurrences_snoc kt [symmetric])
  finally show ?case .
qed

lemma set_objectKeys: "set (objectKeys obj) = fst ` set obj"
  by (auto simp: objectKeys_def Let_def)

lemma reduce_greatest:
  fixes c :: "'a \<Rightarrow> nat"
  assumes "\<forall>a \<in> set (k0 # ks). \<forall>b \<in> set (k0 # ks). gt a b = (c b < c a)"
  shows "foldl (\<lambda>a b. if gt a b then a else b) k0 ks \<in> set (k0 # ks)
       \<and> (\<forall>x \<in> set (k0 # ks). c x \<le> c (foldl (\<lambda>a b. if gt a b then a else b) k0 ks))"
  using assms
proof (induction ks arbitrary: k0)
  case Nil
  show ?case by simp
next
  case (Cons y ys)
  define a where "a = (if gt k0 y then k0 else y)"
  have a_in: "a \<in> {k0, y}" by (simp add: a_def)
  have a_ge: "c k0 \<le> c a \<and> c y \<le> c a"
    using Cons.prems by (auto simp: a_def)
  have "\<forall>p \<in> set (a # ys). \<forall>q \<in> set (a # ys). gt p q = (c q < c p)"
    using Cons.prems a_in by auto
  from Cons.IH [OF this]
  have r: "foldl (\<lambda>a b. if gt a b then a else b) a ys \<in> set (a # ys)"
    "\<forall>x \<in> set (a # ys). c x \<le> c (foldl (\<lambda>a b. if gt a b then a else b) a ys)"
    by simp_all
  have eq: "foldl (\<lambda>a b. if gt a b then a else b) k0 (y # ys)
            = foldl (\<lambda>a b. if gt a b then a else b) a ys"
    by (simp add: a_def)
  from r(1) a_in have "foldl (\<lambda>a b. if gt a b then a else b) a ys \<in> set (k0 # y # ys)"
    by auto
  moreover from r(2) a_ge
  have "\<forall>x \<in> set (k0 # y # ys). c x \<le> c (foldl (\<lambda>a b. if gt a b then a else b) a ys)"
    by auto
  ultimately show ?case unfolding eq by simp
qed

text \<open>
  As long as no category is the name of a member of \<open>Object.prototype\<close>, the counters
  are numbers and the result is a category of the input with the greatest count.
\<close>

lemma mostUsedCategory_greatest:
  assumes "\<forall>t \<in> set ts. categoryKey t \<notin> set objectPrototypeKeys" and "ts \<noteq> []"
  shows "mostUsedCategoryOf ts \<in> categoryKey ` set ts
       \<and> (\<forall>k. occurrences k ts \<le> occurrences (mostUsedCategoryOf ts) ts)"
proof -
  define M where "M = categoryCountOf ts"
  define ks where "ks = firstSeen (map categoryKey ts)"
  have M: "M = map (\<lambda>k. (k, Num (occurrences k ts))) ks"
    using categoryCountOf_counts [OF assms(1)] by (simp add: M_def ks_def)
  have keys: "set (objectKeys M) = categoryKey ` set ts"
    by (simp add: set_objectKeys M ks_def image_image)
  with assms(2) have "objectKeys M \<noteq> []" by auto
  then obtain k0 rest where kr: "objectKeys M = k0 # rest"
    by (cases "objectKeys M") auto
  have val: "\<And>a. a \<in> set (k0 # rest) \<Longrightarrow> getProp M a = Num (occurrences a ts)"
  proof -
    fix a assume "a \<in> set (k0 # rest)"
    then have "a \<in> set (objectKeys M)" by (simp add: kr)
    then have "a \<in> set ks" by (simp add: keys ks_def)
    then show "getProp M a = Num (occurrences a ts)"
      by (simp add: getProp_def M map_of_keyed)
  qed
  have "\<forall>a \<in> set (k0 # rest). \<forall>b \<in> set (k0 # rest).
          jsGreater (getProp M a) (getProp M b) = (occurrences b ts < occurrences a ts)"
    by (auto simp: val jsGreater_def toPrimitive_def simp del: set_simps)
  from reduce_greatest [of k0 rest "\<lambda>a b. jsGreater (getProp M a) (getProp M b)"
      "\<lambda>k. occurrences k ts", OF this]
  have r: "foldl (\<lambda>a b. if jsGreater (getProp M a) (getProp M b) then a else b) k0 rest
            \<in> set (k0 # rest)"
    "\<forall>x \<in> set (k0 # rest). occurrences x ts
        \<le> occurrences (foldl (\<lambda>a b. if jsGreater (getProp M a) (getProp M b) then a else b) k0 rest) ts"
    by simp_all
  have res: "mostUsedCategoryOf ts
      = foldl (\<lambda>a b. if jsGreater (getProp M a) (getProp M b) then a else b) k0 rest"
    by (simp add: mostUsedCategoryOf_def Let_def M_def [symmetric] kr)
  have "set (k0 # rest) = categoryKey ` set ts"
    using keys by (simp only: kr)
  with r(1) have mem: "mostUsedCategoryOf ts \<in> categoryKey ` set ts"
    unfolding res by blast
  have "\<forall>k. occurrences k ts \<le> occurrences (mostUsedCategoryOf ts) ts"
  proof
    fix k
    show "occurrences k ts \<le> occurrences (mostUsedCategoryOf ts) ts"
    proof (cases "k \<in> categoryKey ` set ts")
      case True
      then have "k \<in> set (k0 # rest)" using keys by (simp only: kr)
      with r(2) show ?thesis unfolding res by blast
    next
      case False
      then show ?thesis by (simp add: occurrences_absent)
    qed
  qed
  with mem show ?thesis by simp
qed

lemma mostUsedCategory_empty: "mostUsedCategoryOf [] = ''Nenhuma''"
  by (simp add: mostUsedCategoryOf_def categoryCountOf_def objectKeys_def)

lemma builders_count:
  "categoryCountOf [builder1, builder2, food]
     = [(''constructor'', Str ''function Object() { [native code] }11''), (''Food'', Num 1)]"
  by code_simp

lemma builders_most: "mostUsedCategoryOf [builder1, builder2, food] = ''Food''"
  by code_simp

text \<open>
  Claim C5 does not hold of the code for a category named like a member of
  \<open>Object.prototype\<close>. The first read of \<open>categoryCount['constructor']\<close> finds the
  inherited function, \<open>+ 1\<close> turns it into a string, and a string against a number is
  never greater: with two expenses in \<open>constructor\<close> and one in \<open>Food\<close>, the result is
  \<open>Food\<close>.
\<close>

theorem mostUsedCategory_prototype_name:
  "mostUsedCategoryOf [builder1, builder2, food] = ''Food''
   \<and> occurrences ''constructor'' [builder1, builder2, food] = 2
   \<and> occurrences ''Food'' [builder1, builder2, food] = 1
   \<and> categoryCountOf [builder1, builder2, food]
     = [(''constructor'', Str ''function Object() { [native code] }11''), (''Food'', Num 1)]"
proof -
  have "occurrences ''constructor'' [builder1, builder2, food] = 2"
    "occurrences ''Food'' [builder1, builder2, food] = 1"
    by (simp_all add: occurrences_def categoryKey_def propertyKey_def builder1_def builder2_def food_def)
  then show ?thesis by (simp add: builders_most builders_count)
qed

subsection \<open>Sums of whole amounts\<close>

lemma binaryExponent_of_int:
  assumes "n \<noteq> 0" "\<bar>n\<bar> \<le> 2 ^ 53"
  shows "0 \<le> binaryExponent \<bar>of_int n\<bar> \<and> binaryExponent \<bar>of_int n\<bar> \<le> 53"
proof -
  define r :: rat where "r = \<bar>of_int n\<bar>"
  have r1: "1 \<le> r" using assms(1) by (simp add: r_def flip: of_int_abs)
  have r2: "r \<le> pow2 53"
  proof -
    have "(of_int \<bar>n\<bar> :: rat) \<le> of_int (2 ^ 53)" using assms(2) by (simp only: of_int_le_iff)
    then show ?thesis by (simp add: r_def pow2_def)
  qed
  from r1 have "0 < r" by simp
  from binaryExponent_bounds [OF this]
  have b: "pow2 (binaryExponent r) \<le> r" "r < pow2 (binaryExponent r + 1)" by simp_all
  from b(1) r2 have "pow2 (binaryExponent r) \<le> pow2 53" by simp
  then have "binaryExponent r \<le> 53" by (simp only: pow2_le_iff)
  moreover have "pow2 0 < pow2 (binaryExponent r + 1)"
    using r1 b(2) by (simp add: pow2_def)
  then have "0 < binaryExponent r + 1" by (simp only: pow2_less_iff)
  ultimately show ?thesis by (simp add: r_def)
qed

lemma roundBinary64_of_int:
  assumes "\<bar>n\<bar> \<le> 2 ^ 53"
  shows "roundBinary64 (of_int n) = of_int n"
proof (cases "n = 0")
  case True
  then show ?thesis by (simp add: roundBinary64_def)
next
  case False
  define e where "e = binaryExponent \<bar>of_int n\<bar>"
  define q where "q = pow2 (e - 52)"
  from binaryExponent_of_int [OF False assms] have e: "0 \<le> e" "e \<le> 53"
    by (simp_all add: e_def)
  have q: "0 < q" by (simp add: q_def)
  have v: "roundBinary64 (of_int n) = of_int (roundHalfEven (of_int n / q)) * q"
    using False e by (simp add: roundBinary64_def Let_def q_def e_def max_def)
  have "\<exists>m. (of_int n :: rat) / q = of_int m"
  proof (cases "e \<le> 52")
    case True
    have "q = 1 / pow2 (52 - e)" using pow2_diff [of 0 "52 - e"] by (simp add: q_def pow2_def)
    also have "pow2 (52 - e) = of_int (2 ^ nat (52 - e))" using True by (simp add: pow2_nat)
    finally have "(of_int n :: rat) / q = of_int (n * 2 ^ nat (52 - e))" by simp
    then show ?thesis by blast
  next
    case False
    with e have e53: "e = 53" by simp
    have "0 < \<bar>(of_int n :: rat)\<bar>" using \<open>n \<noteq> 0\<close> by simp
    from binaryExponent_bounds [OF this] have "pow2 53 \<le> \<bar>(of_int n :: rat)\<bar>"
      by (simp add: e_def [symmetric] e53)
    then have "(of_int (2 ^ 53) :: rat) \<le> of_int \<bar>n\<bar>" by (simp add: pow2_def)
    then have "2 ^ 53 \<le> \<bar>n\<bar>" by (simp only: of_int_le_iff)
    with assms have "\<bar>n\<bar> = 2 * 2 ^ 52" by simp
    then have "n = 2 * 2 ^ 52 \<or> n = 2 * (- (2 ^ 52))" by linarith
    then obtain k :: int where "n = 2 * k" by blast
    then have "(of_int n :: rat) = 2 * of_int k" by simp
    moreover have "q = 2" by (simp add: q_def e53 pow2_def)
    ultimately have "(of_int n :: rat) / q = of_int k" by simp
    then show ?thesis by blast
  qed
  then obtain m where m: "(of_int n :: rat) / q = of_int m" by blast
  have "roundBinary64 (of_int n) = of_int m * q" by (simp add: v m)
  also have "\<dots> = of_int n / q * q" by (simp add: m)
  also have "\<dots> = of_int n" using q by simp
  finally show ?thesis .
qed

lemma toNumber_of_int:
  assumes "\<bar>n\<bar> \<le> 2 ^ 53"
  shows "toNumber (of_int n) = Finite (of_int n)"
proof (cases "n = 0")
  case True
  then show ?thesis by (simp add: toNumber_def roundBinary64_def)
next
  case False
  from binaryExponent_of_int [OF False assms] have "binaryExponent \<bar>of_int n\<bar> \<le> 53" by simp
  then show ?thesis
    by (simp add: toNumber_def roundBinary64_of_int [OF assms] Let_def)
qed

lemma sum_list_Ints: "\<forall>x \<in> set xs. x \<in> \<int> \<Longrightarrow> sum_list xs \<in> (\<int> :: rat set)"
  by (induction xs) auto

lemma toNumber_whole:
  fixes r :: rat
  assumes "r \<in> \<int>" "\<bar>r\<bar> \<le> 2 ^ 53"
  shows "toNumber r = Finite r"
proof -
  from assms(1) obtain n where n: "r = of_int n" by (auto elim: Ints_cases)
  with assms(2) have "(of_int \<bar>n\<bar> :: rat) \<le> of_int (2 ^ 53)" by simp
  then have "\<bar>n\<bar> \<le> 2 ^ 53" by (simp only: of_int_le_iff)
  from toNumber_of_int [OF this] n show ?thesis by simp
qed

lemma floatSum_whole:
  "\<forall>x \<in> set xs. x \<in> \<int> \<Longrightarrow> sum_list (map abs xs) \<le> 2 ^ 53 \<Longrightarrow>
   floatSum xs = Finite (sum_list xs)"
proof (induction xs rule: rev_induct)
  case Nil
  show ?case by (simp add: floatSum_def)
next
  case (snoc x xs)
  have nn: "0 \<le> \<bar>x\<bar>" by simp
  from snoc.prems have "sum_list (map abs xs) \<le> 2 ^ 53" using nn by simp
  with snoc have IH: "floatSum xs = Finite (sum_list xs)" by simp
  have "sum_list (xs @ [x]) \<in> \<int>" using snoc.prems(1) by (intro sum_list_Ints) simp
  moreover have "\<bar>sum_list (xs @ [x])\<bar> \<le> sum_list (map abs (xs @ [x]))"
    by (rule sum_list_abs)
  then have "\<bar>sum_list (xs @ [x])\<bar> \<le> 2 ^ 53" using snoc.prems(2) by linarith
  ultimately have "toNumber (sum_list (xs @ [x])) = Finite (sum_list (xs @ [x]))"
    by (rule toNumber_whole)
  then show ?case by (simp add: floatSum_snoc IH)
qed

lemma totalIncome_floatSum: "totalIncome ts = floatSum (amountsOfType ''income'' ts)"
  by (simp add: totalIncome_def floatSum_def amountsOfType_def foldl_map)

lemma totalExpenses_floatSum: "totalExpenses ts = floatSum (amountsOfType ''expense'' ts)"
  by (simp add: totalExpenses_def floatSum_def amountsOfType_def foldl_map)

subsection \<open>The balance\<close>

lemma jsSubtract_Finite:
  "jsSubtract a b = Finite v \<Longrightarrow>
   \<exists>x y. a = Finite x \<and> b = Finite y \<and> toNumber (x - y) = Finite v"
  by (cases a; cases b) (auto simp: jsSubtract_def)

lemma growth_mono:
  fixes u :: rat
  assumes "0 \<le> u" "m \<le> n"
  shows "(1 + u) ^ m - 1 \<le> (1 + u) ^ n - 1"
  using assms by (simp add: power_increasing)

lemma balance_error:
  assumes "jsSubtract (floatSum xs) (floatSum ys) = Finite v"
    and "length xs \<le> n" "length ys \<le> n"
  shows "\<bar>v - (sum_list xs - sum_list ys)\<bar>
     \<le> ((1 + 1 / 2 ^ 53) ^ (n + 1) - 1)
        * (sum_list (map abs xs) + sum_list (map abs ys) + 2 * pow2 (- 1022))"
proof -
  define u :: rat where "u = 1 / 2 ^ 53"
  define c where "c = pow2 (- 1022)"
  define K where "K = (1 + u) ^ n"
  define A where "A = sum_list (map abs xs)"
  define B where "B = sum_list (map abs ys)"
  define S where "S = sum_list xs"
  define T where "T = sum_list ys"
  from jsSubtract_Finite [OF assms(1)] obtain a b where
    ab: "floatSum xs = Finite a" "floatSum ys = Finite b" "toNumber (a - b) = Finite v"
    by blast
  have u: "0 < u" by (simp add: u_def)
  have c: "0 < c" by (simp add: c_def)
  have A: "0 \<le> A" unfolding A_def by (rule sum_list_nonneg) auto
  have B: "0 \<le> B" unfolding B_def by (rule sum_list_nonneg) auto
  have K: "1 \<le> K" using u by (simp add: K_def)
  have SA: "\<bar>S\<bar> \<le> A" unfolding S_def A_def by (rule sum_list_abs)
  have TB: "\<bar>T\<bar> \<le> B" unfolding T_def B_def by (rule sum_list_abs)
  have "\<bar>a - S\<bar> \<le> ((1 + u) ^ length xs - 1) * (A + c)"
    using floatSum_error [OF ab(1)] by (simp add: u_def c_def S_def A_def)
  also have "\<dots> \<le> (K - 1) * (A + c)"
    using growth_mono [of u "length xs" n] u assms(2) A c
    by (intro mult_right_mono) (simp_all add: K_def)
  finally have Ea: "\<bar>a - S\<bar> \<le> (K - 1) * (A + c)" .
  have "\<bar>b - T\<bar> \<le> ((1 + u) ^ length ys - 1) * (B + c)"
    using floatSum_error [OF ab(2)] by (simp add: u_def c_def T_def B_def)
  also have "\<dots> \<le> (K - 1) * (B + c)"
    using growth_mono [of u "length ys" n] u assms(3) B c
    by (intro mult_right_mono) (simp_all add: K_def)
  finally have Eb: "\<bar>b - T\<bar> \<le> (K - 1) * (B + c)" .
  define E where "E = \<bar>a - S\<bar> + \<bar>b - T\<bar>"
  have E: "E \<le> (K - 1) * (A + B + 2 * c)"
    using Ea Eb by (simp add: E_def algebra_simps)
  have E0: "0 \<le> E" by (simp add: E_def)
  have step: "\<bar>v - (a - b)\<bar> \<le> u * \<bar>a - b\<bar> + u * c"
    using rounding_step [OF ab(3)] by (simp add: u_def c_def)
  have "\<bar>a - b\<bar> \<le> E + (A + B)" using SA TB by (simp add: E_def)
  then have ux: "u * \<bar>a - b\<bar> \<le> u * (E + (A + B))" using u by (simp add: mult_left_mono)
  have tri: "\<bar>v - (S - T)\<bar> \<le> \<bar>v - (a - b)\<bar> + E" by (simp add: E_def)
  from tri step ux have "\<bar>v - (S - T)\<bar> \<le> u * (E + (A + B)) + u * c + E" by linarith
  also have "\<dots> = (1 + u) * E + u * (A + B + c)" by (simp add: algebra_simps)
  finally have "\<bar>v - (S - T)\<bar> \<le> (1 + u) * E + u * (A + B + c)" .
  also have "u * (A + B + c) \<le> u * (A + B + 2 * c)" using u c by simp
  also have "(1 + u) * E \<le> (1 + u) * ((K - 1) * (A + B + 2 * c))"
    using E u by (simp add: mult_left_mono)
  finally have "\<bar>v - (S - T)\<bar>
      \<le> (1 + u) * ((K - 1) * (A + B + 2 * c)) + u * (A + B + 2 * c)"
    by simp
  also have "\<dots> = ((1 + u) * K - 1) * (A + B + 2 * c)" by (simp add: algebra_simps)
  finally show ?thesis
    by (simp add: S_def T_def A_def B_def K_def u_def c_def algebra_simps)
qed

lemma length_amountsOfType: "length (amountsOfType ty ts) \<le> length ts"
  by (simp add: amountsOfType_def)

lemma computeBalance_floatSums:
  "computeBalance ts
     = jsSubtract (floatSum (amountsOfType ''income'' ts)) (floatSum (amountsOfType ''expense'' ts))"
  by (simp add: computeBalance_def totalIncome_floatSum totalExpenses_floatSum)

text \<open>
  Claim C1, as the code has it. The balance of the empty list is 0. The balance is the
  double difference of the two double sums, added from the left: it is the sum of the
  income amounts minus the sum of the expense amounts exactly when these amounts are whole
  numbers whose absolute values add up to at most \<open>2\<^sup>5\<^sup>3\<close>, and in every case where it is
  finite it differs from that value by at most
  \<open>((1 + 2\<^sup>-\<^sup>5\<^sup>3)\<^sup>n\<^sup>+\<^sup>1 - 1) (A + 2\<^sup>-\<^sup>1\<^sup>0\<^sup>2\<^sup>1)\<close>, for \<open>n\<close> transactions whose income and expense
  amounts have absolute values adding up to \<open>A\<close>.
\<close>

theorem computeBalance_rounded_difference:
  "computeBalance [] = Finite 0
   \<and> ((\<forall>x \<in> set (amountsOfType ''income'' ts @ amountsOfType ''expense'' ts). x \<in> \<int>)
        \<and> sum_list (map abs (amountsOfType ''income'' ts))
            + sum_list (map abs (amountsOfType ''expense'' ts)) \<le> 2 ^ 53
      \<longrightarrow> computeBalance ts
            = Finite (sum_list (amountsOfType ''income'' ts)
                      - sum_list (amountsOfType ''expense'' ts)))
   \<and> (\<forall>v. computeBalance ts = Finite v \<longrightarrow>
          \<bar>v - (sum_list (amountsOfType ''income'' ts) - sum_list (amountsOfType ''expense'' ts))\<bar>
          \<le> ((1 + 1 / 2 ^ 53) ^ (length ts + 1) - 1)
             * (sum_list (map abs (amountsOfType ''income'' ts))
                + sum_list (map abs (amountsOfType ''expense'' ts)) + 2 * pow2 (- 1022)))"
proof (intro conjI impI allI)
  show "computeBalance [] = Finite 0"
    by (simp add: computeBalance_floatSums amountsOfType_def floatSum_def jsSubtract_def
        toNumber_def roundBinary64_def)
next
  let ?I = "amountsOfType ''income'' ts" and ?X = "amountsOfType ''expense'' ts"
  assume a: "(\<forall>x \<in> set (?I @ ?X). x \<in> \<int>)
      \<and> sum_list (map abs ?I) + sum_list (map abs ?X) \<le> 2 ^ 53"
  have nI: "0 \<le> sum_list (map abs ?I)" by (rule sum_list_nonneg) auto
  have nX: "0 \<le> sum_list (map abs ?X)" by (rule sum_list_nonneg) auto
  from a nI nX have I: "floatSum ?I = Finite (sum_list ?I)"
    by (intro floatSum_whole) auto
  from a nI nX have X: "floatSum ?X = Finite (sum_list ?X)"
    by (intro floatSum_whole) auto
  have "sum_list ?I - sum_list ?X \<in> \<int>"
    using a by (intro Ints_diff sum_list_Ints) auto
  moreover have "\<bar>sum_list ?I - sum_list ?X\<bar> \<le> 2 ^ 53"
    using a sum_list_abs [of ?I] sum_list_abs [of ?X] by linarith
  ultimately have "toNumber (sum_list ?I - sum_list ?X) = Finite (sum_list ?I - sum_list ?X)"
    by (rule toNumber_whole)
  then show "computeBalance ts = Finite (sum_list ?I - sum_list ?X)"
    by (simp add: computeBalance_floatSums I X jsSubtract_def)
next
  fix v
  assume "computeBalance ts = Finite v"
  then have "jsSubtract (floatSum (amountsOfType ''income'' ts))
               (floatSum (amountsOfType ''expense'' ts)) = Finite v"
    by (simp add: computeBalance_floatSums)
  from balance_error [OF this length_amountsOfType length_amountsOfType]
  show "\<bar>v - (sum_list (amountsOfType ''income'' ts) - sum_list (amountsOfType ''expense'' ts))\<bar>
          \<le> ((1 + 1 / 2 ^ 53) ^ (length ts + 1) - 1)
             * (sum_list (map abs (amountsOfType ''income'' ts))
                + sum_list (map abs (amountsOfType ''expense'' ts)) + 2 * pow2 (- 1022))" .
qed

lemma cents_are_doubles:
  "roundBinary64 (1 / 10) = amount coffee"
  "roundBinary64 (2 / 10) = amount paper"
  "roundBinary64 (3 / 10) = amount refund"
  by code_simp+

lemma cents_balance:
  "computeBalance [refund, coffee, paper] = Finite (- 1 / 18014398509481984)"
  by code_simp

text \<open>
  Claim C1 as the specification words it fails on amounts with cents: with an income of
  0.3 and expenses of 0.1 and 0.2 the balance is \<open>-2\<^sup>-\<^sup>5\<^sup>4\<close>, about \<open>-5.55e-17\<close>, while the
  sum of the income amounts minus the sum of the expense amounts, taken on the three
  doubles, is \<open>-2\<^sup>-\<^sup>5\<^sup>5\<close> (and 0 on the decimals they stand for).
\<close>

theorem computeBalance_rounds_counterexample:
  "computeBalance [refund, coffee, paper] = Finite (- 1 / 18014398509481984)
   \<and> sum_list (amountsOfType ''income'' [refund, coffee, paper])
       - sum_list (amountsOfType ''expense'' [refund, coffee, paper])
     = - 1 / 36028797018963968"
proof -
  have "sum_list (amountsOfType ''income'' [refund, coffee, paper])
       - sum_list (amountsOfType ''expense'' [refund, coffee, paper])
     = - 1 / 36028797018963968"
    by (simp add: amountsOfType_def refund_def coffee_def paper_def)
  with cents_balance show ?thesis by simp
qed

text \<open>Claim C1 on the scenario of the specification: whole amounts, balance 830.\<close>

theorem computeBalance_rounded_difference_witness:
  "amountsOfType ''income'' [food, rent, salary] = [1000]
   \<and> amountsOfType ''expense'' [food, rent, salary] = [50, 120]
   \<and> computeBalance [food, rent, salary] = Finite 830
   \<and> \<bar>830 - (sum_list (amountsOfType ''income'' [food, rent, salary])
               - sum_list (amountsOfType ''expense'' [food, rent, salary]))\<bar>
      \<le> ((1 + 1 / 2 ^ 53) ^ (length [food, rent, salary] + 1) - 1)
         * (sum_list (map abs (amountsOfType ''income'' [food, rent, salary]))
            + sum_list (map abs (amountsOfType ''expense'' [food, rent, salary]))
            + 2 * pow2 (- 1022))"
proof -
  let ?ts = "[food, rent, salary]"
  note th = computeBalance_rounded_difference [of ?ts]
  have I: "amountsOfType ''income'' ?ts = [1000]"
    and X: "amountsOfType ''expense'' ?ts = [50, 120]"
    by (simp_all add: amountsOfType_def food_def rent_def salary_def)
  have whole: "\<forall>x \<in> set (amountsOfType ''income'' ?ts @ amountsOfType ''expense'' ?ts). x \<in> \<int>"
    by (simp add: I X)
  have small: "sum_list (map abs (amountsOfType ''income'' ?ts))
            + sum_list (map abs (amountsOfType ''expense'' ?ts)) \<le> 2 ^ 53"
    by (simp add: I X)
  from th whole small have b: "computeBalance ?ts
      = Finite (sum_list (amountsOfType ''income'' ?ts) - sum_list (amountsOfType ''expense'' ?ts))"
    by blast
  then have b830: "computeBalance ?ts = Finite 830" by (simp add: I X)
  from th b830 have "\<bar>830 - (sum_list (amountsOfType ''income'' ?ts)
               - sum_list (amountsOfType ''expense'' ?ts))\<bar>
      \<le> ((1 + 1 / 2 ^ 53) ^ (length ?ts + 1) - 1)
         * (sum_list (map abs (amountsOfType ''income'' ?ts))
            + sum_list (map abs (amountsOfType ''expense'' ?ts)) + 2 * pow2 (- 1022))"
    by blast
  with I X b830 show ?thesis by blast
qed

subsection \<open>The monthly series\<close>

text \<open>
  The year and the month are those of the device. Three hours west of UTC, the expense
  dated 2024-01-01 parses to midnight UTC, which the device reads as 31 December at 21:00:
  its month key is the one of December 2023. The statements on calendar months below are
  for dates that the device reads in the month they name.
\<close>

lemma monthKey_west_of_utc:
  "monthKey (deviceRuntime (- 10800000)) busFare = ''2023-12''
   \<and> monthKey (deviceRuntime 0) busFare = ''2024-1''"
  by code_simp




















lemma month_points [simp]:
  "map month (processMonthlyData rt ts) = firstSeen (map (monthKey rt) ts)"
  by (simp add: processMonthlyData_points comp_def)

















end
